theory Spec2Isabelle
  imports Complex_Main "HOL-Library.Char_ord" "HOL-Library.List_Lexorder" "HOL-Library.AList"
begin

section \<open>Python values used by experiment/runner.py\<close>

text \<open>
  Time stamps are Python floats. Only their order, \<open>max\<close>, one addition and one
  subtraction are used. A finite float is modelled by the real number it denotes and
  \<open>-float('inf')\<close> by its own constructor; the addition and the subtraction round their
  exact result (\<open>float_add\<close> and \<open>float_sub\<close> below).
\<close>

datatype pyfloat = NegInf | Fin real

instantiation pyfloat :: linorder
begin

fun less_eq_pyfloat :: "pyfloat \<Rightarrow> pyfloat \<Rightarrow> bool" where
  "less_eq_pyfloat NegInf _ = True"
| "less_eq_pyfloat (Fin _) NegInf = False"
| "less_eq_pyfloat (Fin a) (Fin b) = (a \<le> b)"

definition less_pyfloat :: "pyfloat \<Rightarrow> pyfloat \<Rightarrow> bool" where
  "less_pyfloat x y = (x \<le> y \<and> \<not> y \<le> x)"

instance
proof
  fix x y z :: pyfloat
  show "(x < y) = (x \<le> y \<and> \<not> y \<le> x)" by (simp add: less_pyfloat_def)
  show "x \<le> x" by (cases x) simp_all
  show "x \<le> y \<Longrightarrow> y \<le> z \<Longrightarrow> x \<le> z"
    by (cases x; cases y; cases z) simp_all
  show "x \<le> y \<Longrightarrow> y \<le> x \<Longrightarrow> x = y"
    by (cases x; cases y) simp_all
  show "x \<le> y \<or> y \<le> x"
    by (cases x; cases y) auto
qed

end

text \<open>
  Exceptions are values. Every constructor is a subclass of Python's \<open>Exception\<close>;
  \<open>FileNotFoundError\<close>, \<open>NotADirectoryError\<close> and \<open>shutil.Error\<close> are subclasses of
  \<open>OSError\<close>. Signals that derive from \<open>BaseException\<close> only (KeyboardInterrupt,
  SystemExit) are not modelled.
\<close>

datatype exn =
    OSError
  | FileNotFoundError
  | NotADirectoryError
  | ShutilError
  | TypeError
  | ValueError
  | CalledProcessError
  | KeyError
  | OtherException string

fun is_OSError :: "exn \<Rightarrow> bool" where
  "is_OSError OSError = True"
| "is_OSError FileNotFoundError = True"
| "is_OSError NotADirectoryError = True"
| "is_OSError ShutilError = True"
| "is_OSError _ = False"

type_synonym path = "string list"
type_synonym bytes = "char list"

text \<open>A call of \<open>logs.debug/info/warning/error\<close>: level, format string, arguments.\<close>

datatype level = DEBUG | INFO | WARNING | ERROR

datatype arg = ArgInt int | ArgNum real | ArgPath path | ArgPaths "(path \<times> path) list"

type_synonym log_entry = "level \<times> string \<times> arg list"

section \<open>The file tree\<close>

text \<open>
  A snapshot of the local file system: regular files (content, modification time) and
  directories (their entries in the order \<open>os.scandir\<close> lists them). Symbolic links and
  permissions are not modelled. A path is the list of its components below \<open>/\<close>, so
  paths are absolute and normalised, \<open>os.path.abspath\<close> is the identity and
  \<open>os.path.join d name\<close> is \<open>d @ [name]\<close>.
\<close>

datatype node = File (content: bytes) (mtime: real) | Dir (entries: "(string \<times> node) list")

fun lookup :: "node \<Rightarrow> path \<Rightarrow> node option" where
  "lookup n [] = Some n"
| "lookup (File c t) (x # xs) = None"
| "lookup (Dir es) (x # xs) = (case map_of es x of None \<Rightarrow> None | Some n \<Rightarrow> lookup n xs)"

fun is_file :: "node \<Rightarrow> bool" where
  "is_file (File c t) = True"
| "is_file (Dir es) = False"

fun is_dir :: "node \<Rightarrow> bool" where
  "is_dir (File c t) = False"
| "is_dir (Dir es) = True"

definition os_path_exists :: "node \<Rightarrow> path \<Rightarrow> bool" where
  "os_path_exists fs p = (lookup fs p \<noteq> None)"

definition os_path_isdir :: "node \<Rightarrow> path \<Rightarrow> bool" where
  "os_path_isdir fs p = (case lookup fs p of Some (Dir es) \<Rightarrow> True | _ \<Rightarrow> False)"

definition os_scandir :: "node \<Rightarrow> path \<Rightarrow> exn + (string \<times> node) list" where
  "os_scandir fs p =
     (case lookup fs p of
        Some (Dir es) \<Rightarrow> Inr es
      | Some (File c t) \<Rightarrow> Inl NotADirectoryError
      | None \<Rightarrow> Inl FileNotFoundError)"

definition startswith_dot :: "string \<Rightarrow> bool" where
  "startswith_dot name = (case name of [] \<Rightarrow> False | c # cs \<Rightarrow> c = CHR ''.'')"

section \<open>The world outside the interpreter\<close>

text \<open>
  Everything the runner reads or changes besides its own object: the file tree, the
  module-level flag \<open>fuzzer_errored_out\<close>, the log, the arguments of every \<open>time.sleep\<close>,
  the clock (the value the n-th call of \<open>time.time()\<close> returns), the outcome of the n-th
  fallible external operation (\<open>None\<close>: it succeeds), the archives in the local staging
  directory and in remote storage, the remote results mirror and the commands started.
\<close>

type_synonym tar_member = "path \<times> bytes"

record world =
  disk :: node
  fuzzer_errored_out :: bool
  logs :: "log_entry list"
  slept :: "real list"
  time_src :: "nat \<Rightarrow> real"
  time_calls :: nat
  fault_src :: "nat \<Rightarrow> exn option"
  fault_calls :: nat
  archives :: "nat \<rightharpoonup> tar_member list"
  gcs_corpus :: "nat \<rightharpoonup> tar_member list"
  gcs_results :: "node option"
  launched :: "string list"

definition logmsg :: "level \<Rightarrow> string \<Rightarrow> arg list \<Rightarrow> world \<Rightarrow> world" where
  "logmsg lv fmt args w = w\<lparr>logs := logs w @ [(lv, fmt, args)]\<rparr>"

definition time_time :: "world \<Rightarrow> real \<times> world" where
  "time_time w = (time_src w (time_calls w), w\<lparr>time_calls := Suc (time_calls w)\<rparr>)"

text \<open>\<open>time.sleep\<close> raises ValueError on a negative argument.\<close>

definition time_sleep :: "real \<Rightarrow> world \<Rightarrow> (exn + unit) \<times> world" where
  "time_sleep secs w =
     (if secs < 0 then (Inl ValueError, w) else (Inr (), w\<lparr>slept := slept w @ [secs]\<rparr>))"

text \<open>
  The environment variables and the constants of modules that are not part of the
  sources (\<open>experiment_utils.get_snapshot_seconds()\<close>, the result of
  \<open>fuzzer_utils.get_fuzz_target_binary\<close>, the exit of the fuzz process), and the
  rounding of the interpreter's float arithmetic (\<open>float_round\<close>, see below).
\<close>

datatype proc_outcome = Exited int | LaunchFailed exn

record config =
  NO_SEEDS :: bool
  FUZZ_OUTSIDE_EXPERIMENT :: bool
  OUTPUT_CORPUS_DIR :: "path option"
  snapshot_seconds :: real
  target_binary :: "string option"
  fuzz_outcome :: proc_outcome
  trial_bucket_dir :: string
  cwd :: path
  float_round :: "real \<Rightarrow> real"

text \<open>
  A Python float is a binary64 value, and \<open>x + y\<close> and \<open>x - y\<close> on floats are the exact
  sum and difference rounded to a representable value. The rounding function is the
  field \<open>float_round\<close> of the configuration. Nothing is assumed of it: what is proved
  below holds for every rounding, exact arithmetic (the identity) included.
\<close>

definition float_add :: "config \<Rightarrow> real \<Rightarrow> real \<Rightarrow> real" where
  "float_add cfg x y = float_round cfg (x + y)"

definition float_sub :: "config \<Rightarrow> real \<Rightarrow> real \<Rightarrow> real" where
  "float_sub cfg x y = float_round cfg (x - y)"

text \<open>
  The fields of a \<open>TrialRunner\<close> object that its methods read after construction
  (\<open>fuzzer\<close>, \<open>corpus_archives_dir\<close> and \<open>log_file\<close> only name things).
\<close>

record trial =
  cycle :: nat
  output_corpus :: "path option"
  results_dir :: path
  gcs_sync_dir :: "string option"
  last_sync_time :: "real option"
  last_archive_time :: pyfloat

section \<open>TrialRunner.sleep_until_next_sync\<close>

definition sleep_until_next_sync ::
  "config \<Rightarrow> trial \<times> world \<Rightarrow> (exn + unit) \<times> trial \<times> world" where
  "sleep_until_next_sync cfg s =
     (let (t, w) = s;
          (sleep_time, w1) =
            (case last_sync_time t of
               Some lst \<Rightarrow>
                 (let next_sync_time = float_add cfg lst (snapshot_seconds cfg);
                      (now, wa) = time_time w;
                      sleep_time = float_sub cfg next_sync_time now
                  in if sleep_time < 0
                     then (0, logmsg WARNING ''Sleep time on cycle %d is %d''
                                [ArgInt (int (cycle t)), ArgNum sleep_time] wa)
                     else (sleep_time, wa))
             | None \<Rightarrow> (snapshot_seconds cfg, w));
          w2 = logmsg DEBUG ''Sleeping for %d seconds.'' [ArgNum sleep_time] w1
      in case time_sleep sleep_time w2 of
           (Inl e, w3) \<Rightarrow> (Inl e, t, w3)
         | (Inr u, w3) \<Rightarrow>
             (let (now2, w4) = time_time w3
              in (Inr (), t\<lparr>last_sync_time := Some now2\<rparr>, w4)))"

section \<open>Resolving the output corpus directory\<close>

text \<open>
  \<open>_looks_like_afl_dir\<close>. The \<open>try\<close> around \<open>os.scandir\<close> turns its OSError into the
  answer False; \<open>entry.is_file(follow_symlinks=False)\<close> holds of regular files only.
\<close>

definition markers :: "string list" where
  "markers = [''fuzzer_stats'', ''plot_data'', ''cmdline'', ''target_hash'']"

definition looks_like_afl_dir :: "node \<Rightarrow> path \<Rightarrow> bool" where
  "looks_like_afl_dir fs d =
     (if \<not> os_path_isdir fs d then False
      else let queue_dir = d @ [''queue'']
           in if \<not> os_path_isdir fs queue_dir then False
              else if list_ex (\<lambda>m. os_path_exists fs (d @ [m])) markers then True
              else (case os_scandir fs queue_dir of
                      Inl e \<Rightarrow> False
                    | Inr es \<Rightarrow> list_ex (\<lambda>(name, n). is_file n \<and> \<not> startswith_dot name) es))"

text \<open>
  \<open>glob.glob(os.path.join(d, '*'))\<close>: the entries of \<open>d\<close> whose name does not start with a
  dot (the pattern \<open>*\<close> does not match them), nothing when \<open>d\<close> is not a directory.
  \<open>sorted\<close> orders the resulting strings; they share the prefix \<open>d/\<close>, so this is the
  lexicographic order of the paths, that is, of the names by their characters.
\<close>

definition glob_star :: "node \<Rightarrow> path \<Rightarrow> path list" where
  "glob_star fs d =
     (case os_scandir fs d of
        Inl e \<Rightarrow> []
      | Inr es \<Rightarrow> map (\<lambda>name. d @ [name]) (filter (\<lambda>name. \<not> startswith_dot name) (map fst es)))"

text \<open>
  \<open>_find_real_output_corpus_dir\<close>. \<open>None\<close> stands for a falsy argument (\<open>None\<close> or the
  empty string), which is returned as it is.
\<close>

definition find_real_output_corpus_dir :: "node \<Rightarrow> path option \<Rightarrow> path option" where
  "find_real_output_corpus_dir fs output_corpus_dir =
     (case output_corpus_dir of
        None \<Rightarrow> None
      | Some d \<Rightarrow>
          (case find (\<lambda>name. looks_like_afl_dir fs (d @ [name])) [''default'', ''main'', ''master''] of
             Some name \<Rightarrow> Some (d @ [name])
           | None \<Rightarrow>
               if looks_like_afl_dir fs d then Some d
               else (case find (looks_like_afl_dir fs) (sort (glob_star fs d)) of
                       Some cand \<Rightarrow> Some cand
                     | None \<Rightarrow> Some d)))"



section \<open>Archiving the corpus\<close>

text \<open>
  \<open>os.walk(top)\<close>, top down, as \<open>iter_targeted_corpus_elements\<close> consumes it: the files
  of a directory first, then its subdirectories in listing order. Nothing is yielded
  when \<open>top\<close> is not a directory. The generator is lazy; on a snapshot of the tree it
  yields the elements of this list in this order.
\<close>

fun walk_files :: "path \<Rightarrow> node \<Rightarrow> path list" where
  "walk_files d (File c t) = []"
| "walk_files d (Dir es) =
     map (\<lambda>e. d @ [fst e]) (filter (\<lambda>e. is_file (snd e)) es)
     @ concat (map (\<lambda>e. walk_files (d @ [fst e]) (snd e)) (filter (\<lambda>e. is_dir (snd e)) es))"

definition os_walk_files :: "node \<Rightarrow> path \<Rightarrow> path list" where
  "os_walk_files fs d = (case lookup fs d of None \<Rightarrow> [] | Some n \<Rightarrow> walk_files d n)"

definition iter_targeted_corpus_elements :: "node \<Rightarrow> path \<Rightarrow> path list" where
  "iter_targeted_corpus_elements fs corpus_dir =
     concat (map (\<lambda>subdir.
                let target_path = corpus_dir @ [subdir]
                in if \<not> os_path_isdir fs target_path then [] else os_walk_files fs target_path)
             [''queue'', ''crashes'', ''hangs''])"

text \<open>
  \<open>os.stat(p).st_mtime\<close>. The times of directories are not modelled; the runner stats
  only what \<open>os.walk\<close> listed as a file.
\<close>

definition os_stat_mtime :: "node \<Rightarrow> path \<Rightarrow> exn + real" where
  "os_stat_mtime fs p =
     (case lookup fs p of
        None \<Rightarrow> Inl FileNotFoundError
      | Some (File c t) \<Rightarrow> Inr t
      | Some (Dir es) \<Rightarrow> Inr 0)"

text \<open>
  \<open>os.path.relpath(p, start)\<close> on normalised absolute paths: one \<open>..\<close> for every
  component of \<open>start\<close> after the common prefix, then the rest of \<open>p\<close>.
\<close>

fun strip_common :: "path \<Rightarrow> path \<Rightarrow> path \<times> path" where
  "strip_common (x # xs) (y # ys) = (if x = y then strip_common xs ys else (x # xs, y # ys))"
| "strip_common xs ys = (xs, ys)"

definition os_path_relpath :: "path \<Rightarrow> path \<Rightarrow> path" where
  "os_path_relpath p start =
     (let (s', p') = strip_common start p;
          rel_list = replicate (length s') ''..'' @ p'
      in if rel_list = [] then [''.''] else rel_list)"

text \<open>
  \<open>tar.add(p, arcname=a)\<close>: a regular file becomes one member; a directory is added with
  everything below it.
\<close>

fun tar_members :: "path \<Rightarrow> node \<Rightarrow> tar_member list" where
  "tar_members arcname (File c t) = [(arcname, c)]"
| "tar_members arcname (Dir es) =
     concat (map (\<lambda>e. tar_members (arcname @ [fst e]) (snd e)) es)"

definition tar_add :: "node \<Rightarrow> path \<Rightarrow> path \<Rightarrow> exn + tar_member list" where
  "tar_add fs p arcname =
     (case lookup fs p of None \<Rightarrow> Inl FileNotFoundError | Some n \<Rightarrow> Inr (tar_members arcname n))"

text \<open>
  The outcome of the next fallible external operation (opening or finalising the tar
  file, a call of \<open>filestore_utils\<close>, \<open>os.remove\<close> of the archive ...).
\<close>

definition external_call :: "world \<Rightarrow> exn option \<times> world" where
  "external_call w = (fault_src w (fault_calls w), w\<lparr>fault_calls := Suc (fault_calls w)\<rparr>)"

text \<open>One iteration of the loop in \<open>archive_corpus\<close>, with its two \<open>except\<close> clauses.\<close>

definition archive_handler :: "exn \<Rightarrow> world \<Rightarrow> world" where
  "archive_handler e w =
     (if is_OSError e then w
      else logmsg ERROR ''Unexpected exception occurred when archiving.'' [] w)"

definition archive_step ::
  "node \<Rightarrow> path \<Rightarrow> pyfloat \<Rightarrow> pyfloat \<times> tar_member list \<times> world \<Rightarrow> path
   \<Rightarrow> pyfloat \<times> tar_member list \<times> world" where
  "archive_step fs real_corpus_root last_archive s file_path =
     (let (new_archive_time, tar, w) = s
      in case os_stat_mtime fs file_path of
           Inl e \<Rightarrow> (new_archive_time, tar, archive_handler e w)
         | Inr last_modified_time \<Rightarrow>
             if Fin last_modified_time \<le> last_archive then (new_archive_time, tar, w)
             else (let new_archive_time' = max new_archive_time (Fin last_modified_time);
                       arcname = os_path_relpath file_path real_corpus_root
                   in case tar_add fs file_path arcname of
                        Inl e \<Rightarrow> (new_archive_time', tar, archive_handler e w)
                      | Inr ms \<Rightarrow> (new_archive_time', tar @ ms, w)))"

text \<open>
  \<open>TrialRunner.archive_corpus\<close>. The archive file is named by
  \<open>experiment_utils.get_corpus_archive_name(self.cycle)\<close>, a module outside the sources:
  the model identifies the archive by the cycle number. On an unset output corpus
  (\<open>None\<close>) \<open>os.path.join\<close> raises TypeError. Opening and finalising the archive file are
  the two fallible external operations; when either raises, the assignment to
  \<open>last_archive_time\<close> after the \<open>with\<close> block is not reached.
\<close>

definition archive_corpus :: "trial \<times> world \<Rightarrow> (exn + nat) \<times> trial \<times> world" where
  "archive_corpus s =
     (let (t, w) = s;
          archive = cycle t
      in case find_real_output_corpus_dir (disk w) (output_corpus t) of
           None \<Rightarrow> (Inl TypeError, t, w)
         | Some real_corpus_root \<Rightarrow>
             (let queue_dir = real_corpus_root @ [''queue''];
                  w1 = (if \<not> os_path_isdir (disk w) queue_dir
                        then logmsg WARNING
                          ''No queue/ found in real_corpus_root=%s (cycle=%d). Archiving may be seed-only.''
                          [ArgPath real_corpus_root, ArgInt (int (cycle t))] w
                        else w)
              in case external_call w1 of
                   (Some e, w2) \<Rightarrow> (Inl e, t, w2)
                 | (None, w2) \<Rightarrow>
                     (let (new_archive_time, tar, w3) =
                            foldl (archive_step (disk w) real_corpus_root (last_archive_time t))
                              (last_archive_time t, [], w2)
                              (iter_targeted_corpus_elements (disk w) real_corpus_root)
                      in case external_call w3 of
                           (Some e, w4) \<Rightarrow> (Inl e, t, w4)
                         | (None, w4) \<Rightarrow>
                             (Inr archive, t\<lparr>last_archive_time := new_archive_time\<rparr>,
                              w4\<lparr>archives := (archives w4)(archive \<mapsto> tar)\<rparr>))))"

text \<open>A tree as a file system has it: the names in a directory are distinct.\<close>

fun wf_node :: "node \<Rightarrow> bool" where
  "wf_node (File c t) = True"
| "wf_node (Dir es) = (distinct (map fst es) \<and> (\<forall>e \<in> set es. wf_node (snd e)))"

text \<open>
  \<open>TrialRunner.__init__\<close>. \<open>filestore_utils.rm\<close> empties the remote trial directory and
  is a fallible external operation.
\<close>

definition TrialRunner_init :: "config \<Rightarrow> world \<Rightarrow> (exn + trial) \<times> world" where
  "TrialRunner_init cfg w =
     (let new = (\<lambda>g. \<lparr>cycle = 0, output_corpus = OUTPUT_CORPUS_DIR cfg,
                        results_dir = cwd cfg @ [''results''], gcs_sync_dir = g,
                        last_sync_time = None, last_archive_time = NegInf\<rparr>)
      in if \<not> FUZZ_OUTSIDE_EXPERIMENT cfg
         then (case external_call w of
                 (Some e, w1) \<Rightarrow> (Inl e, w1)
               | (None, w1) \<Rightarrow>
                   (Inr (new (Some (trial_bucket_dir cfg))),
                    w1\<lparr>gcs_corpus := Map.empty, gcs_results := None\<rparr>))
         else (Inr (new None), w))"

text \<open>
  The modification times the loop of \<open>archive_corpus\<close> observes: those of the listed
  paths whose \<open>os.stat\<close> succeeds. The three element subdirectories.
\<close>

definition considered_mtimes :: "node \<Rightarrow> path list \<Rightarrow> pyfloat list" where
  "considered_mtimes fs ps =
     concat (map (\<lambda>p. case os_stat_mtime fs p of Inl e \<Rightarrow> [] | Inr m \<Rightarrow> [Fin m]) ps)"

definition targeted :: "string set" where
  "targeted = {''queue'', ''crashes'', ''hangs''}"

section \<open>Saving to remote storage, with retry\<close>

definition NUM_RETRIES :: nat where
  "NUM_RETRIES = 3"

definition RETRY_DELAY :: real where
  "RETRY_DELAY = 3"

text \<open>
  Modelled from the spec: \<open>common.retry.wrap\<close> is not part of the sources. The
  specification describes it as bounded retry with a fixed delay: the operation is
  called, and while it raises and retries are left, the wrapper sleeps for the delay
  and calls it again; the exception of the last attempt propagates. With
  \<open>retries = 3\<close> that is one call and at most three retries.
\<close>

fun retry_wrap ::
  "nat \<Rightarrow> real \<Rightarrow> (trial \<times> world \<Rightarrow> (exn + 'a) \<times> trial \<times> world)
   \<Rightarrow> trial \<times> world \<Rightarrow> (exn + 'a) \<times> trial \<times> world" where
  "retry_wrap 0 delay f s = f s"
| "retry_wrap (Suc n) delay f s =
     (case f s of
        (Inr v, s') \<Rightarrow> (Inr v, s')
      | (Inl e, t', w') \<Rightarrow>
          (case time_sleep delay w' of
             (Inl e', w'') \<Rightarrow> (Inl e', t', w'')
           | (Inr u, w'') \<Rightarrow> retry_wrap n delay f (t', w'')))"

text \<open>
  \<open>TrialRunner.save_corpus_archive\<close>: \<open>filestore_utils.cp\<close> is a fallible external
  operation that copies the archive to remote storage; \<open>os.remove\<close> then deletes the
  local file.
\<close>

definition save_corpus_archive :: "nat \<Rightarrow> trial \<times> world \<Rightarrow> (exn + unit) \<times> trial \<times> world" where
  "save_corpus_archive archive s =
     (let (t, w) = s
      in case gcs_sync_dir t of
           None \<Rightarrow> (Inr (), t, w)
         | Some gcs \<Rightarrow>
             (case external_call w of
                (Some e, w1) \<Rightarrow> (Inl e, t, w1)
              | (None, w1) \<Rightarrow>
                  (case archives w1 archive of
                     None \<Rightarrow> (Inl FileNotFoundError, t, w1)
                   | Some tar \<Rightarrow>
                       (Inr (), t, w1\<lparr>gcs_corpus := (gcs_corpus w1)(archive \<mapsto> tar),
                                      archives := (archives w1)(archive := None)\<rparr>))))"

definition archive_and_save_corpus :: "trial \<times> world \<Rightarrow> (exn + unit) \<times> trial \<times> world" where
  "archive_and_save_corpus =
     retry_wrap NUM_RETRIES RETRY_DELAY
       (\<lambda>s. case archive_corpus s of
               (Inl e, s') \<Rightarrow> (Inl e, s')
             | (Inr archive, s') \<Rightarrow> save_corpus_archive archive s')"

text \<open>
  \<open>TrialRunner.save_results\<close>: \<open>filesystem.make_dir_copy\<close> and \<open>filestore_utils.rsync\<close>
  are fallible external operations; after both, remote storage mirrors the results
  directory.
\<close>

definition save_results_body :: "trial \<times> world \<Rightarrow> (exn + unit) \<times> trial \<times> world" where
  "save_results_body s =
     (let (t, w) = s
      in case gcs_sync_dir t of
           None \<Rightarrow> (Inr (), t, w)
         | Some gcs \<Rightarrow>
             (case external_call w of
                (Some e, w1) \<Rightarrow> (Inl e, t, w1)
              | (None, w1) \<Rightarrow>
                  (case external_call w1 of
                     (Some e, w2) \<Rightarrow> (Inl e, t, w2)
                   | (None, w2) \<Rightarrow>
                       (Inr (), t, w2\<lparr>gcs_results := lookup (disk w2) (results_dir t)\<rparr>))))"

definition save_results :: "trial \<times> world \<Rightarrow> (exn + unit) \<times> trial \<times> world" where
  "save_results = retry_wrap NUM_RETRIES RETRY_DELAY save_results_body"

text \<open>
  \<open>TrialRunner.do_sync\<close>. Every modelled exception is an instance of \<open>Exception\<close>, so the
  \<open>except Exception\<close> clause handles whatever the two steps raise.
\<close>

definition do_sync :: "trial \<times> world \<Rightarrow> (exn + unit) \<times> trial \<times> world" where
  "do_sync s =
     (let handler = (\<lambda>(t', w'). (Inr (), t',
                       logmsg ERROR ''Failed to sync cycle: %d.'' [ArgInt (int (cycle t'))] w'))
      in case archive_and_save_corpus s of
           (Inl e, s1) \<Rightarrow> handler s1
         | (Inr u, s1) \<Rightarrow>
             (case save_results s1 of
                (Inl e, s2) \<Rightarrow> handler s2
              | (Inr u', t2, w2) \<Rightarrow> (Inr (), t2, logmsg DEBUG ''Finished sync.'' [] w2)))"

section \<open>Running the fuzzer and conducting the trial\<close>

text \<open>
  Modelled from the spec: \<open>new_process.execute\<close> (module \<open>common.new_process\<close>) is not
  part of the sources. By the specification the fuzz process is executed with a deadline,
  and its nonzero exit status is what \<open>run_fuzzer\<close> records as the error of the trial;
  \<open>run_fuzzer\<close> records it in its \<open>except subprocess.CalledProcessError\<close> clause, so a
  nonzero status surfaces as that exception and a zero status as a normal return. The
  field \<open>fuzz_outcome\<close> of the configuration says how the run ends: \<open>Exited status\<close>
  when the command was started and ended with that status, \<open>LaunchFailed e\<close> when the
  \<open>try\<close> block of \<open>run_fuzzer\<close> raises \<open>e\<close> before the process ends (building the command,
  opening the log file, starting the process).
\<close>

definition new_process_execute :: "config \<Rightarrow> string \<Rightarrow> world \<Rightarrow> (exn + unit) \<times> world" where
  "new_process_execute cfg command w =
     (case fuzz_outcome cfg of
        LaunchFailed e \<Rightarrow> (Inl e, w)
      | Exited status \<Rightarrow>
          (if status \<noteq> 0 then Inl CalledProcessError else Inr (),
           w\<lparr>launched := launched w @ [command]\<rparr>))"

text \<open>
  \<open>run_fuzzer\<close>. \<open>os.environ['OUTPUT_CORPUS_DIR']\<close> raises KeyError when the variable is
  unset. The result of \<open>fuzzer_utils.get_fuzz_target_binary\<close> is the configuration field
  \<open>target_binary\<close>. The sanitizer options only change the environment of the child.
  Only \<open>subprocess.CalledProcessError\<close> is caught; every other exception leaves the
  function.
\<close>

definition run_fuzzer :: "config \<Rightarrow> real option \<Rightarrow> world \<Rightarrow> (exn + unit) \<times> world" where
  "run_fuzzer cfg max_total_time w =
     (case OUTPUT_CORPUS_DIR cfg of
        None \<Rightarrow> (Inl KeyError, w)
      | Some output_corpus' \<Rightarrow>
          (case target_binary cfg of
             None \<Rightarrow> (Inr (), logmsg ERROR ''Fuzz target binary not found.'' [] w)
           | Some binary \<Rightarrow>
               (let w1 = (if max_total_time = None
                          then logmsg WARNING ''max_total_time is None. Fuzzing indefinitely.'' [] w
                          else w)
                in case new_process_execute cfg binary w1 of
                     (Inr u, w2) \<Rightarrow> (Inr (), w2)
                   | (Inl e, w2) \<Rightarrow>
                       if e = CalledProcessError
                       then (Inr (), logmsg ERROR ''Fuzz process returned nonzero.'' []
                                       (w2\<lparr>fuzzer_errored_out := True\<rparr>))
                       else (Inl e, w2))))"

text \<open>
  The loop of \<open>conduct_trial\<close>: \<open>k\<close> is the number of times \<open>fuzz_thread.is_alive()\<close>
  answers True before the fuzz thread ends. An exception of \<open>sleep_until_next_sync\<close>
  leaves the loop.
\<close>

fun sync_loop :: "config \<Rightarrow> nat \<Rightarrow> trial \<times> world \<Rightarrow> (exn + unit) \<times> trial \<times> world" where
  "sync_loop cfg 0 s = (Inr (), s)"
| "sync_loop cfg (Suc k) s =
     (let (t, w) = s
      in case sleep_until_next_sync cfg (t\<lparr>cycle := cycle t + 1\<rparr>, w) of
           (Inl e, s1) \<Rightarrow> (Inl e, s1)
         | (Inr u, s1) \<Rightarrow>
             (case do_sync s1 of
                (Inl e, s2) \<Rightarrow> (Inl e, s2)
              | (Inr u', s2) \<Rightarrow> sync_loop cfg k s2))"

text \<open>
  \<open>TrialRunner.conduct_trial\<close>. \<open>initialize_directories\<close> and
  \<open>set_up_corpus_directories\<close> rest on modules outside the sources (recreating
  directories, fetching and unpacking seeds) and are parameters: steps on the world that
  may raise. The fuzz thread runs \<open>run_fuzzer\<close> beside the loop and shares only the
  world with it; its effects are applied as a whole at the moment it is observed dead,
  after \<open>k\<close> iterations of the loop. An exception of the thread ends the thread only.
  In a run of the program the log entries of the thread fall somewhere among those of
  the loop: what the code fixes is that they precede \<open>Doing final sync.\<close>, which is
  logged once the thread is dead, and that the flag is written before the thread ends.
  Nothing below rests on more of the order than that.
\<close>

definition conduct_trial ::
  "config \<Rightarrow> (world \<Rightarrow> (exn + unit) \<times> world) \<Rightarrow> (world \<Rightarrow> (exn + unit) \<times> world)
   \<Rightarrow> real option \<Rightarrow> nat \<Rightarrow> trial \<times> world \<Rightarrow> (exn + unit) \<times> trial \<times> world" where
  "conduct_trial cfg initialize_directories set_up_corpus_directories max_total_time k s =
     (let (t, w) = s
      in case initialize_directories w of
           (Inl e, w1) \<Rightarrow> (Inl e, t, w1)
         | (Inr u, w1) \<Rightarrow>
             (case set_up_corpus_directories (logmsg INFO ''Starting trial.'' [] w1) of
                (Inl e, w2) \<Rightarrow> (Inl e, t, w2)
              | (Inr u', w2) \<Rightarrow>
                  (case do_sync (t, w2) of
                     (Inl e, s3) \<Rightarrow> (Inl e, s3)
                   | (Inr u'', t3, w3) \<Rightarrow>
                       (case (if FUZZ_OUTSIDE_EXPERIMENT cfg then time_sleep 5 w3 else (Inr (), w3)) of
                          (Inl e, w4) \<Rightarrow> (Inl e, t3, w4)
                        | (Inr u''', w4) \<Rightarrow>
                            (case sync_loop cfg k (t3, w4) of
                               (Inl e, s5) \<Rightarrow> (Inl e, s5)
                             | (Inr u'''', t5, w5) \<Rightarrow>
                                 (let w6 = snd (run_fuzzer cfg max_total_time w5)
                                  in do_sync (t5, logmsg INFO ''Doing final sync.'' [] w6)))))))"

text \<open>
  \<open>experiment_main\<close> and \<open>main\<close>. The module is loaded with \<open>fuzzer_errored_out = False\<close>.
  An exception that leaves \<open>main\<close> ends the interpreter with exit status 1; otherwise
  \<open>sys.exit(main())\<close> exits with the value \<open>main\<close> returns.
\<close>

definition experiment_main ::
  "config \<Rightarrow> (world \<Rightarrow> (exn + unit) \<times> world) \<Rightarrow> (world \<Rightarrow> (exn + unit) \<times> world)
   \<Rightarrow> real option \<Rightarrow> nat \<Rightarrow> world \<Rightarrow> (exn + unit) \<times> world" where
  "experiment_main cfg initialize_directories set_up_corpus_directories max_total_time k w =
     (let w0 = logmsg INFO ''Doing trial as part of experiment.'' [] w;
          reraise = (\<lambda>e w'. (Inl e, logmsg ERROR ''Error doing trial.'' [] w'))
      in case TrialRunner_init cfg w0 of
           (Inl e, w1) \<Rightarrow> reraise e w1
         | (Inr runner, w1) \<Rightarrow>
             (case conduct_trial cfg initialize_directories set_up_corpus_directories
                     max_total_time k (runner, w1) of
                (Inl e, t2, w2) \<Rightarrow> reraise e w2
              | (Inr u, t2, w2) \<Rightarrow> (Inr (), w2)))"

definition main_exit_code ::
  "config \<Rightarrow> (world \<Rightarrow> (exn + unit) \<times> world) \<Rightarrow> (world \<Rightarrow> (exn + unit) \<times> world)
   \<Rightarrow> real option \<Rightarrow> nat \<Rightarrow> world \<Rightarrow> int \<times> world" where
  "main_exit_code cfg initialize_directories set_up_corpus_directories max_total_time k w =
     (case experiment_main cfg initialize_directories set_up_corpus_directories max_total_time k
             (w\<lparr>fuzzer_errored_out := False\<rparr>) of
        (Inl e, w') \<Rightarrow> (1, w')
      | (Inr u, w') \<Rightarrow> (if fuzzer_errored_out w' then 1 else 0, w'))"

section \<open>Preparing the seed corpus\<close>

definition CORPUS_ELEMENT_BYTES_LIMIT :: nat where
  "CORPUS_ELEMENT_BYTES_LIMIT = 1 * 1024 * 1024"

text \<open>
  Changing the tree: removing the entry at a path, and placing a node at a path (in
  place of the entry of that name, or as a new last entry of the parent directory).
\<close>

primrec remove_at :: "path \<Rightarrow> node \<Rightarrow> node" where
  "remove_at [] = (\<lambda>n. n)"
| "remove_at (x # xs) =
     (\<lambda>n. case n of
            File c t \<Rightarrow> n
          | Dir es \<Rightarrow>
              if xs = [] then Dir (AList.delete x es)
              else Dir (AList.map_entry x (remove_at xs) es))"

primrec put_at :: "path \<Rightarrow> node \<Rightarrow> node \<Rightarrow> node" where
  "put_at [] v = (\<lambda>n. v)"
| "put_at (x # xs) v =
     (\<lambda>n. case n of
            File c t \<Rightarrow> n
          | Dir es \<Rightarrow>
              if xs = [] then Dir (AList.update x v es)
              else Dir (AList.map_entry x (put_at xs v) es))"

text \<open>
  \<open>os.path.getsize\<close>, \<open>os.remove\<close> and \<open>os.rename\<close>. The sizes of directories are not
  modelled. \<open>os.rename\<close> is modelled for a regular file as source, which is all this
  module renames: it replaces a regular file at the destination, does nothing when
  source and destination are the same path, and fails on a directory at the destination
  or a missing parent directory.
\<close>

definition os_path_getsize :: "node \<Rightarrow> path \<Rightarrow> exn + nat" where
  "os_path_getsize fs p =
     (case lookup fs p of
        None \<Rightarrow> Inl FileNotFoundError
      | Some (File c t) \<Rightarrow> Inr (length c)
      | Some (Dir es) \<Rightarrow> Inr 0)"

definition os_remove :: "node \<Rightarrow> path \<Rightarrow> exn + node" where
  "os_remove fs p =
     (case lookup fs p of
        None \<Rightarrow> Inl FileNotFoundError
      | Some (File c t) \<Rightarrow> Inr (remove_at p fs)
      | Some (Dir es) \<Rightarrow> Inl OSError)"

definition os_rename :: "node \<Rightarrow> path \<Rightarrow> path \<Rightarrow> exn + node" where
  "os_rename fs src dst =
     (case lookup fs src of
        None \<Rightarrow> Inl FileNotFoundError
      | Some (Dir es) \<Rightarrow> Inl OSError
      | Some (File c t) \<Rightarrow>
          if src = dst then Inr fs
          else if os_path_isdir fs dst then Inl OSError
          else if \<not> os_path_isdir fs (butlast dst) then Inl FileNotFoundError
          else Inr (put_at dst (File c t) (remove_at src fs)))"

text \<open>
  \<open>shutil.move(src, dst)\<close> for a regular file: into \<open>dst\<close> when \<open>dst\<close> is a directory
  (\<open>shutil.Error\<close> when the name is taken there), else a rename onto \<open>dst\<close>.
\<close>

definition shutil_move :: "node \<Rightarrow> path \<Rightarrow> path \<Rightarrow> exn + node" where
  "shutil_move fs src dst =
     (if os_path_isdir fs dst
      then (let real_dst = dst @ [last src]
            in if os_path_exists fs real_dst then Inl ShutilError
               else os_rename fs src real_dst)
      else os_rename fs src dst)"

text \<open>
  The body of the inner loop of \<open>_clean_seed_corpus\<close> for one file. The state is the list
  \<open>failed_to_move_files\<close> and the world. \<open>utils.file_hash\<close> (the SHA-1 of the content, a
  module outside the sources) is the configuration field \<open>file_hash\<close>. An exception of
  \<open>os.path.getsize\<close>, \<open>os.remove\<close> or \<open>utils.file_hash\<close> is not caught; an OSError of
  \<open>shutil.move\<close> is.
\<close>

definition clean_file ::
  "(bytes \<Rightarrow> string) \<Rightarrow> path \<Rightarrow> path \<Rightarrow> (path \<times> path) list \<times> world
   \<Rightarrow> (exn + unit) \<times> (path \<times> path) list \<times> world" where
  "clean_file file_hash seed_corpus_dir file_path s =
     (let (failed_to_move_files, w) = s
      in case os_path_getsize (disk w) file_path of
           Inl e \<Rightarrow> (Inl e, s)
         | Inr size' \<Rightarrow>
             if size' > CORPUS_ELEMENT_BYTES_LIMIT
             then (case os_remove (disk w) file_path of
                     Inl e \<Rightarrow> (Inl e, s)
                   | Inr fs' \<Rightarrow>
                       (Inr (), failed_to_move_files,
                        logmsg WARNING ''Removed seed file %s as it exceeds 1 Mb limit.''
                          [ArgPath file_path] (w\<lparr>disk := fs'\<rparr>)))
             else (case lookup (disk w) file_path of
                     Some (File c t) \<Rightarrow>
                       (let sha1sum = file_hash c;
                            new_file_path = seed_corpus_dir @ [sha1sum]
                        in case shutil_move (disk w) file_path new_file_path of
                             Inr fs' \<Rightarrow> (Inr (), failed_to_move_files, w\<lparr>disk := fs'\<rparr>)
                           | Inl e \<Rightarrow>
                               if is_OSError e
                               then (Inr (),
                                     failed_to_move_files @ [(file_path, new_file_path)], w)
                               else (Inl e, s))
                   | _ \<Rightarrow> (Inl OSError, s)))"

fun clean_files ::
  "(bytes \<Rightarrow> string) \<Rightarrow> path \<Rightarrow> path \<Rightarrow> string list \<Rightarrow> (path \<times> path) list \<times> world
   \<Rightarrow> (exn + unit) \<times> (path \<times> path) list \<times> world" where
  "clean_files file_hash seed_corpus_dir d [] s = (Inr (), s)"
| "clean_files file_hash seed_corpus_dir d (filename # files) s =
     (case clean_file file_hash seed_corpus_dir (d @ [filename]) s of
        (Inl e, s') \<Rightarrow> (Inl e, s')
      | (Inr u, s') \<Rightarrow> clean_files file_hash seed_corpus_dir d files s')"

text \<open>
  The walk of \<open>_clean_seed_corpus\<close>. \<open>os.walk\<close> lists a directory when it reaches it, so
  the files are read from the tree as it is then. The loop body only removes and renames
  regular files; it never creates, removes or renames a directory. The subdirectories
  that \<open>os.walk\<close> finds are therefore those of the tree at the start, and the recursion
  runs over that tree (second argument) while the files come from the current tree.
\<close>

fun clean_walk ::
  "(bytes \<Rightarrow> string) \<Rightarrow> path \<Rightarrow> path \<Rightarrow> node \<Rightarrow> (path \<times> path) list \<times> world
   \<Rightarrow> (exn + unit) \<times> (path \<times> path) list \<times> world"
and clean_walk_dirs ::
  "(bytes \<Rightarrow> string) \<Rightarrow> path \<Rightarrow> path \<Rightarrow> (string \<times> node) list \<Rightarrow> (path \<times> path) list \<times> world
   \<Rightarrow> (exn + unit) \<times> (path \<times> path) list \<times> world" where
  "clean_walk file_hash seed_corpus_dir d (File c t) s = (Inr (), s)"
| "clean_walk file_hash seed_corpus_dir d (Dir es) s =
     (case os_scandir (disk (snd s)) d of
        Inl e \<Rightarrow> (Inr (), s)
      | Inr es_now \<Rightarrow>
          (case clean_files file_hash seed_corpus_dir d
                  (map fst (filter (\<lambda>e. is_file (snd e)) es_now)) s of
             (Inl e, s') \<Rightarrow> (Inl e, s')
           | (Inr u, s') \<Rightarrow>
               clean_walk_dirs file_hash seed_corpus_dir d es s'))"
| "clean_walk_dirs file_hash seed_corpus_dir d [] s = (Inr (), s)"
| "clean_walk_dirs file_hash seed_corpus_dir d (e # es) s =
     (if is_dir (snd e)
      then (case clean_walk file_hash seed_corpus_dir (d @ [fst e]) (snd e) s of
              (Inl x, s') \<Rightarrow> (Inl x, s')
            | (Inr u, s') \<Rightarrow> clean_walk_dirs file_hash seed_corpus_dir d es s')
      else clean_walk_dirs file_hash seed_corpus_dir d es s)"

text \<open>
  \<open>_clean_seed_corpus\<close>. With \<open>NO_SEEDS\<close>, \<open>shutil.rmtree\<close> raises NotADirectoryError on
  a regular file; otherwise the directory is left empty.
\<close>

definition clean_seed_corpus ::
  "config \<Rightarrow> (bytes \<Rightarrow> string) \<Rightarrow> path \<Rightarrow> world \<Rightarrow> (exn + unit) \<times> world" where
  "clean_seed_corpus cfg file_hash seed_corpus_dir w =
     (if \<not> os_path_exists (disk w) seed_corpus_dir then (Inr (), w)
      else if NO_SEEDS cfg
      then (let w1 = logmsg INFO ''NO_SEEDS specified, deleting seed corpus files.'' [] w
            in if os_path_isdir (disk w1) seed_corpus_dir
               then (Inr (), w1\<lparr>disk := put_at seed_corpus_dir (Dir []) (disk w1)\<rparr>)
               else (Inl NotADirectoryError, w1))
      else (case lookup (disk w) seed_corpus_dir of
              None \<Rightarrow> (Inr (), w)
            | Some n \<Rightarrow>
                (case clean_walk file_hash seed_corpus_dir seed_corpus_dir n ([], w) of
                   (Inl e, failed_to_move_files, w') \<Rightarrow> (Inl e, w')
                 | (Inr u, failed_to_move_files, w') \<Rightarrow>
                     (Inr (),
                      if failed_to_move_files \<noteq> []
                      then logmsg ERROR ''Failed to move seed corpus files: %s''
                             [ArgPaths failed_to_move_files] w'
                      else w'))))"

section \<open>Example values\<close>

text \<open>Concrete inputs at which the theorems below are instantiated.\<close>

definition world0 :: world where
  "world0 = \<lparr>disk = Dir [], fuzzer_errored_out = False, logs = [], slept = [],
     time_src = (\<lambda>n. 2000), time_calls = 0, fault_src = (\<lambda>n. None), fault_calls = 0,
     archives = Map.empty, gcs_corpus = Map.empty, gcs_results = None, launched = []\<rparr>"

definition cfg0 :: config where
  "cfg0 = \<lparr>NO_SEEDS = False, FUZZ_OUTSIDE_EXPERIMENT = False,
     OUTPUT_CORPUS_DIR = Some [''out''], snapshot_seconds = 900,
     target_binary = Some ''/out/fuzz_target'', fuzz_outcome = Exited 0,
     trial_bucket_dir = ''bucket/trial-1'', cwd = [''work''], float_round = (\<lambda>x. x)\<rparr>"

definition trial0 :: trial where
  "trial0 = \<lparr>cycle = 1, output_corpus = Some [''out''],
     results_dir = [''work'', ''results''], gcs_sync_dir = Some ''bucket/trial-1'',
     last_sync_time = Some 100, last_archive_time = NegInf\<rparr>"



definition fs_nested :: node where
  "fs_nested = Dir [(''out'', Dir [(''default'', Dir [(''queue'', Dir [(''id_0'', File ''a'' 1)]),
      (''default'', Dir [(''queue'', Dir [(''id_1'', File ''b'' 2)])])])])]"

definition fs_corpus :: node where
  "fs_corpus = Dir [(''out'', Dir [(''default'', Dir
     [(''fuzzer_stats'', File ''stats'' 50),
      (''queue'', Dir [(''id_0'', File ''a'' 10), (''id_1'', File ''b'' 20),
                       (''id_2'', File ''c'' 31), (''sub'', Dir [(''id_3'', File ''d'' 32)])]),
      (''crashes'', Dir [(''crash_0'', File ''e'' 40)]),
      (''plot_data'', File ''p'' 60)])])]"

definition world1 :: world where
  "world1 = world0\<lparr>disk := fs_corpus\<rparr>"

definition trial1 :: trial where
  "trial1 = trial0\<lparr>last_archive_time := Fin 30\<rparr>"

definition world_upload_fails :: world where
  "world_upload_fails =
     world1\<lparr>fault_src :=
       (\<lambda>n. if n \<in> {2, 5, 8, 11} then Some (OtherException ''upload failed'') else None)\<rparr>"

definition no_op_step :: "world \<Rightarrow> (exn + unit) \<times> world" where
  "no_op_step w = (Inr (), w)"


definition cfg_nobin :: config where
  "cfg_nobin = cfg0\<lparr>target_binary := None\<rparr>"

text \<open>
  An example hash: it agrees with SHA-1 on the empty content and is injective.
\<close>

definition hash_ex :: "bytes \<Rightarrow> string" where
  "hash_ex c = (if c = [] then ''da39a3ee5e6b4b0d3255bfef95601890afd80709'' else ''sha1_of_'' @ c)"

definition fs_seeds :: node where
  "fs_seeds = Dir [(''seeds'', Dir [(''a'', File ''x'' 1), (''b'', File ''x'' 2),
      (''sub'', Dir [(''c'', File ''y'' 3), (''d'', File ''x'' 4)]), (''e'', File [] 5)])]"

definition fs_hashdir :: node where
  "fs_hashdir = Dir [(''seeds'', Dir [(''a'', File [] 1), (''b'', File [] 2),
      (''da39a3ee5e6b4b0d3255bfef95601890afd80709'', Dir [])])]"

definition cfg_no_seeds :: config where
  "cfg_no_seeds = cfg0\<lparr>NO_SEEDS := True\<rparr>"

section \<open>Sleep scheduling\<close>




section \<open>Output corpus resolution\<close>






lemma find_real_result:
  assumes "find_real_output_corpus_dir fs (Some d) = Some r"
  shows "r = d \<or> looks_like_afl_dir fs r"
proof -
  have a: "looks_like_afl_dir fs (d @ [name])"
    if "find (\<lambda>name. looks_like_afl_dir fs (d @ [name])) names = Some name" for names name
    using that by (auto simp: find_Some_iff)
  have b: "looks_like_afl_dir fs cand"
    if "find (looks_like_afl_dir fs) cands = Some cand" for cands cand
    using that by (auto simp: find_Some_iff)
  from assms show ?thesis
    unfolding find_real_output_corpus_dir_def
    by (auto split: option.splits if_splits dest: a b)
qed

lemma find_real_total: "\<exists>r. find_real_output_corpus_dir fs (Some d) = Some r"
  unfolding find_real_output_corpus_dir_def
  by (simp split: option.split)

lemma find_real_of_valid:
  assumes "looks_like_afl_dir fs r"
    and "\<not> list_ex (\<lambda>name. looks_like_afl_dir fs (r @ [name])) [''default'', ''main'', ''master'']"
  shows "find_real_output_corpus_dir fs (Some r) = Some r"
  using assms by (simp add: find_real_output_corpus_dir_def)




text \<open>
  C8 (as amended). The resolver is a function of the file tree that returns a path: it
  has no way to change the tree. Resolving the resolved path again gives the same path
  whenever the resolved directory has no subdirectory \<open>default\<close>, \<open>main\<close> or \<open>master\<close>
  that passes the validity test.
\<close>

theorem resolution_idempotent_unless_nested:
  assumes "\<And>r. find_real_output_corpus_dir fs p = Some r \<Longrightarrow>
             \<not> list_ex (\<lambda>name. looks_like_afl_dir fs (r @ [name])) [''default'', ''main'', ''master'']"
  shows "find_real_output_corpus_dir fs (find_real_output_corpus_dir fs p)
         = find_real_output_corpus_dir fs p"
proof (cases p)
  case None
  then show ?thesis by (simp add: find_real_output_corpus_dir_def)
next
  case (Some d)
  with find_real_total obtain r where r: "find_real_output_corpus_dir fs p = Some r"
    by blast
  from find_real_result r Some have "r = d \<or> looks_like_afl_dir fs r" by blast
  then show ?thesis
  proof
    assume "r = d" with r Some show ?thesis by simp
  next
    assume "looks_like_afl_dir fs r"
    from find_real_of_valid[OF this assms[OF r]] r show ?thesis by simp
  qed
qed

theorem resolution_idempotent_unless_nested_witness:
  "find_real_output_corpus_dir fs_nested (Some [''out'', ''default''])
     = Some [''out'', ''default'', ''default'']
   \<and> \<not> list_ex (\<lambda>name. looks_like_afl_dir fs_nested ([''out'', ''default'', ''default''] @ [name]))
          [''default'', ''main'', ''master'']
   \<and> find_real_output_corpus_dir fs_nested
        (find_real_output_corpus_dir fs_nested (Some [''out'', ''default'']))
     = find_real_output_corpus_dir fs_nested (Some [''out'', ''default''])"
proof -
  have r: "find_real_output_corpus_dir fs_nested (Some [''out'', ''default''])
     = Some [''out'', ''default'', ''default'']"
    by (simp add: find_real_output_corpus_dir_def fs_nested_def looks_like_afl_dir_def
      os_path_isdir_def os_path_exists_def os_scandir_def markers_def startswith_dot_def)
  have n: "\<not> list_ex (\<lambda>name. looks_like_afl_dir fs_nested ([''out'', ''default'', ''default''] @ [name]))
          [''default'', ''main'', ''master'']"
    by (simp add: fs_nested_def looks_like_afl_dir_def os_path_isdir_def)
  have "find_real_output_corpus_dir fs_nested
        (find_real_output_corpus_dir fs_nested (Some [''out'', ''default'']))
     = find_real_output_corpus_dir fs_nested (Some [''out'', ''default''])"
    by (rule resolution_idempotent_unless_nested) (use r n in simp)
  with r n show ?thesis by blast
qed

text \<open>
  C8 as stated fails: with \<open>out/default/queue/id_0\<close> and
  \<open>out/default/default/queue/id_1\<close>, resolving \<open>out\<close> gives \<open>out/default\<close> and resolving
  that gives \<open>out/default/default\<close>.
\<close>

theorem resolution_not_idempotent_counterexample:
  "find_real_output_corpus_dir fs_nested (Some [''out'']) = Some [''out'', ''default'']
   \<and> find_real_output_corpus_dir fs_nested (find_real_output_corpus_dir fs_nested (Some [''out'']))
       = Some [''out'', ''default'', ''default'']
   \<and> find_real_output_corpus_dir fs_nested (find_real_output_corpus_dir fs_nested (Some [''out'']))
       \<noteq> find_real_output_corpus_dir fs_nested (Some [''out''])"
  by (simp add: find_real_output_corpus_dir_def fs_nested_def looks_like_afl_dir_def
      os_path_isdir_def os_path_exists_def os_scandir_def markers_def startswith_dot_def)

section \<open>Incremental archiving\<close>

lemma lookup_append:
  "lookup n (p @ q) = (case lookup n p of None \<Rightarrow> None | Some n' \<Rightarrow> lookup n' q)"
proof (induction n p rule: lookup.induct)
  case (1 n) show ?case by simp
next
  case (2 c t x xs) show ?case by simp
next
  case (3 es x xs) then show ?case by (simp split: option.splits)
qed

lemma wf_node_lookup: "wf_node n \<Longrightarrow> lookup n p = Some n' \<Longrightarrow> wf_node n'"
proof (induction n p rule: lookup.induct)
  case (3 es x xs)
  then show ?case by (auto split: option.splits dest!: map_of_SomeD)
qed simp_all

lemma lookup_Dir_Cons:
  assumes "distinct (map fst es)"
  shows "(lookup (Dir es) (x # q) = Some r) = (\<exists>n. (x, n) \<in> set es \<and> lookup n q = Some r)"
proof
  assume "lookup (Dir es) (x # q) = Some r"
  then obtain n where "map_of es x = Some n" "lookup n q = Some r"
    by (auto split: option.splits)
  then show "\<exists>n. (x, n) \<in> set es \<and> lookup n q = Some r"
    by (blast dest: map_of_SomeD)
next
  assume "\<exists>n. (x, n) \<in> set es \<and> lookup n q = Some r"
  then obtain n where n: "(x, n) \<in> set es" "lookup n q = Some r" by blast
  from n(1) assms have "map_of es x = Some n" by (rule map_of_is_SomeI[rotated])
  with n(2) show "lookup (Dir es) (x # q) = Some r" by simp
qed

lemma lookup_File_Some: "(lookup (File c t) q = Some r) = (q = [] \<and> r = File c t)"
  by (cases q) auto


lemma set_walk_files:
  "wf_node n \<Longrightarrow>
   set (walk_files d n) = {d @ q | q. q \<noteq> [] \<and> (\<exists>c m. lookup n q = Some (File c m))}"
proof (induction d n rule: walk_files.induct)
  case (1 d c t)
  then show ?case by (auto simp: lookup_File_Some)
next
  case (2 d es)
  have dist: "distinct (map fst es)" using 2(2) by simp
  have IH: "set (walk_files (d @ [x]) n) =
      {(d @ [x]) @ q | q. q \<noteq> [] \<and> (\<exists>c m. lookup n q = Some (File c m))}"
    if "(x, n) \<in> set es" "is_dir n" for x n
  proof -
    from that 2(2) have "wf_node n" by auto
    with 2(1)[of "(x, n)"] that show ?thesis by simp
  qed
  have L: "set (walk_files d (Dir es)) =
      (\<lambda>e. d @ [fst e]) ` {e \<in> set es. is_file (snd e)}
      \<union> (\<Union>e \<in> {e \<in> set es. is_dir (snd e)}. set (walk_files (d @ [fst e]) (snd e)))"
    by simp
  have inL1: "d @ [x] \<in> set (walk_files d (Dir es))" if "(x, n) \<in> set es" "is_file n" for x n
    unfolding L using that by force
  have inL2: "p \<in> set (walk_files d (Dir es))"
    if "(x, n) \<in> set es" "is_dir n" "p \<in> set (walk_files (d @ [x]) n)" for x n p
    unfolding L using that by force
  have Lcases: "(\<exists>x n. (x, n) \<in> set es \<and> is_file n \<and> p = d @ [x])
      \<or> (\<exists>x n. (x, n) \<in> set es \<and> is_dir n \<and> p \<in> set (walk_files (d @ [x]) n))"
    if "p \<in> set (walk_files d (Dir es))" for p
    using that unfolding L by force
  show ?case (is "?L = ?R")
  proof (rule set_eqI, rule iffI)
    fix p assume "p \<in> ?L"
    from Lcases[OF this] consider x n where "(x, n) \<in> set es" "is_file n" "p = d @ [x]"
      | x n where "(x, n) \<in> set es" "is_dir n" "p \<in> set (walk_files (d @ [x]) n)"
      by blast
    then show "p \<in> ?R"
    proof cases
      case 1
      then obtain c m where "n = File c m" by (cases n) auto
      with 1 dist have "lookup (Dir es) [x] = Some (File c m)"
        by (simp only: lookup_Dir_Cons) auto
      with 1(3) show ?thesis by blast
    next
      case 2
      with IH obtain q c m where q: "p = (d @ [x]) @ q" "q \<noteq> []" "lookup n q = Some (File c m)"
        by blast
      with 2(1) dist have "lookup (Dir es) (x # q) = Some (File c m)"
        by (simp only: lookup_Dir_Cons) auto
      with q(1) show ?thesis by auto
    qed
  next
    fix p assume "p \<in> ?R"
    then obtain q c m where q: "p = d @ q" "q \<noteq> []" "lookup (Dir es) q = Some (File c m)" by blast
    then obtain x q' where xq: "q = x # q'" by (cases q) auto
    with q(3) dist obtain n where n: "(x, n) \<in> set es" "lookup n q' = Some (File c m)"
      by (simp only: lookup_Dir_Cons) auto
    show "p \<in> ?L"
    proof (cases n)
      case (File c' t')
      with n have "q' = []" by (simp add: lookup_File_Some)
      with inL1[of x n] n(1) File q(1) xq show ?thesis by simp
    next
      case (Dir es')
      with n have "q' \<noteq> []" by auto
      with IH[of x n] n Dir have "(d @ [x]) @ q' \<in> set (walk_files (d @ [x]) n)" by auto
      with inL2[of x n] n(1) Dir q(1) xq show ?thesis by simp
    qed
  qed
qed


lemma strip_common_append: "strip_common r (r @ q) = ([], q)"
  by (induction r) auto

lemma relpath_below: "q \<noteq> [] \<Longrightarrow> os_path_relpath (r @ q) r = q"
  by (simp add: os_path_relpath_def strip_common_append)

lemma set_os_walk_files:
  assumes "wf_node fs" "os_path_isdir fs d"
  shows "set (os_walk_files fs d) = {d @ q | q. q \<noteq> [] \<and> (\<exists>c m. lookup fs (d @ q) = Some (File c m))}"
proof -
  from assms(2) obtain es where es: "lookup fs d = Some (Dir es)"
    by (auto simp: os_path_isdir_def split: option.splits node.splits)
  with assms(1) have "wf_node (Dir es)" by (rule wf_node_lookup)
  from set_walk_files[OF this, of d] es show ?thesis
    by (simp add: os_walk_files_def lookup_append)
qed

lemma not_isdir_no_files_below:
  assumes "\<not> os_path_isdir fs d" "q \<noteq> []"
  shows "lookup fs (d @ q) \<noteq> Some (File c m)"
proof (cases "lookup fs d")
  case None
  then show ?thesis by (simp add: lookup_append)
next
  case (Some n)
  with assms(1) obtain c' t' where "n = File c' t'"
    by (cases n) (auto simp: os_path_isdir_def)
  with Some assms(2) show ?thesis by (cases q) (simp_all add: lookup_append)
qed

lemma set_iter_targeted:
  assumes "wf_node fs"
  shows "set (iter_targeted_corpus_elements fs r) =
     {r @ s # q | s q. s \<in> targeted \<and> q \<noteq> [] \<and> (\<exists>c m. lookup fs (r @ s # q) = Some (File c m))}"
proof -
  have one: "set (if \<not> os_path_isdir fs (r @ [s]) then [] else os_walk_files fs (r @ [s])) =
      {r @ s # q | q. q \<noteq> [] \<and> (\<exists>c m. lookup fs (r @ s # q) = Some (File c m))}" for s
  proof (cases "os_path_isdir fs (r @ [s])")
    case True
    from set_os_walk_files[OF assms True] True show ?thesis by simp
  next
    case False
    from not_isdir_no_files_below[OF False] have "lookup fs (r @ s # q) \<noteq> Some (File c m)"
      if "q \<noteq> []" for q c m using that by (metis append.assoc append_Cons append_Nil)
    with False show ?thesis by auto
  qed
  have un: "(\<Union>s \<in> T. {g s q | q. P s q}) = {g s q | s q. s \<in> T \<and> P s q}"
    for T :: "string set" and g :: "string \<Rightarrow> path \<Rightarrow> path" and P
    by blast
  have "set (iter_targeted_corpus_elements fs r) =
      (\<Union>s \<in> targeted. set (if \<not> os_path_isdir fs (r @ [s]) then [] else os_walk_files fs (r @ [s])))"
    unfolding iter_targeted_corpus_elements_def Let_def targeted_def by simp
  also have "\<dots> = (\<Union>s \<in> targeted.
      {r @ s # q | q. q \<noteq> [] \<and> (\<exists>c m. lookup fs (r @ s # q) = Some (File c m))})"
    by (simp only: one)
  also have "\<dots> = {r @ s # q | s q. s \<in> targeted \<and> q \<noteq> []
      \<and> (\<exists>c m. lookup fs (r @ s # q) = Some (File c m))}"
    by (rule un)
  finally show ?thesis .
qed


lemma archive_step_file:
  assumes "lookup fs p = Some (File c m)"
  shows "archive_step fs r wm (acc, tar, w) p =
     (if Fin m \<le> wm then (acc, tar, w)
      else (max acc (Fin m), tar @ [(os_path_relpath p r, c)], w))"
  using assms by (simp add: archive_step_def os_stat_mtime_def tar_add_def)

lemma foldl_archive_files:
  assumes "\<forall>p \<in> set xs. \<exists>c m. lookup fs p = Some (File c m)"
  shows "\<exists>acc'. \<forall>w. foldl (archive_step fs r wm) (acc, tar, w) xs =
     (acc',
      tar @ map (\<lambda>p. (os_path_relpath p r, content (the (lookup fs p))))
              (filter (\<lambda>p. \<not> Fin (mtime (the (lookup fs p))) \<le> wm) xs),
      w)"
  using assms
proof (induction xs arbitrary: acc tar)
  case Nil
  then show ?case by simp
next
  case (Cons p xs)
  then obtain c m where f: "lookup fs p = Some (File c m)" by auto
  from Cons.prems have rest: "\<forall>p \<in> set xs. \<exists>c m. lookup fs p = Some (File c m)" by simp
  show ?case
  proof (cases "Fin m \<le> wm")
    case True
    with Cons.IH[OF rest, of acc tar] f show ?thesis by (simp add: archive_step_file)
  next
    case False
    with Cons.IH[OF rest, of "max acc (Fin m)" "tar @ [(os_path_relpath p r, c)]"] f
    show ?thesis by (simp add: archive_step_file)
  qed
qed

lemma archive_step_parts:
  "\<exists>tar' w'. archive_step fs r wm (acc, tar, w) p =
     (case os_stat_mtime fs p of
        Inl e \<Rightarrow> acc
      | Inr m \<Rightarrow> if Fin m \<le> wm then acc else max acc (Fin m), tar', w')
    \<and> disk w' = disk w \<and> fault_src w' = fault_src w \<and> fault_calls w' = fault_calls w
    \<and> archives w' = archives w"
  by (auto simp: archive_step_def archive_handler_def logmsg_def Let_def split: sum.splits)

lemma foldl_archive_time:
  assumes "wm \<le> acc"
  shows "\<exists>tar' w'. foldl (archive_step fs r wm) (acc, tar, w) xs
           = (fold max (considered_mtimes fs xs) acc, tar', w')
    \<and> disk w' = disk w \<and> fault_src w' = fault_src w \<and> fault_calls w' = fault_calls w
    \<and> archives w' = archives w"
  using assms
proof (induction xs arbitrary: acc tar w)
  case Nil
  then show ?case by (simp add: considered_mtimes_def)
next
  case (Cons p xs)
  from archive_step_parts[of fs r wm acc tar w p] obtain tar1 w1 where
    s: "archive_step fs r wm (acc, tar, w) p =
     (case os_stat_mtime fs p of
        Inl e \<Rightarrow> acc
      | Inr m \<Rightarrow> if Fin m \<le> wm then acc else max acc (Fin m), tar1, w1)"
    and k: "disk w1 = disk w" "fault_src w1 = fault_src w" "fault_calls w1 = fault_calls w"
      "archives w1 = archives w"
    by blast
  let ?n1 = "case os_stat_mtime fs p of
        Inl e \<Rightarrow> acc
      | Inr m \<Rightarrow> if Fin m \<le> wm then acc else max acc (Fin m)"
  have n1: "?n1 = fold max (considered_mtimes fs [p]) acc"
    using Cons.prems by (auto simp: considered_mtimes_def max_def split: sum.splits)
  have le: "wm \<le> ?n1" using Cons.prems by (auto split: sum.splits simp: max_def)
  from Cons.IH[OF le, of tar1 w1] k s n1 show ?case
    by (auto simp: considered_mtimes_def)
qed

lemma archive_corpus_run:
  fixes t w r
  defines "w2 \<equiv> (if \<not> os_path_isdir (disk w) (r @ [''queue''])
                   then logmsg WARNING
                     ''No queue/ found in real_corpus_root=%s (cycle=%d). Archiving may be seed-only.''
                     [ArgPath r, ArgInt (int (cycle t))] w
                   else w)\<lparr>fault_calls := Suc (fault_calls w)\<rparr>"
  assumes r: "find_real_output_corpus_dir (disk w) (output_corpus t) = Some r"
    and f1: "fault_src w (fault_calls w) = None"
    and fold: "foldl (archive_step (disk w) r (last_archive_time t)) (last_archive_time t, [], w2)
          (iter_targeted_corpus_elements (disk w) r) = (acc, tar, w3)"
    and w3: "disk w3 = disk w" "fault_src w3 = fault_src w"
        "fault_calls w3 = Suc (fault_calls w)" "archives w3 = archives w"
  shows "archive_corpus (t, w) =
      (case fault_src w (Suc (fault_calls w)) of
         None \<Rightarrow> (Inr (cycle t), t\<lparr>last_archive_time := acc\<rparr>,
                   w3\<lparr>fault_calls := Suc (Suc (fault_calls w)),
                      archives := (archives w)(cycle t \<mapsto> tar)\<rparr>)
       | Some e \<Rightarrow> (Inl e, t, w3\<lparr>fault_calls := Suc (Suc (fault_calls w))\<rparr>))"
proof -
  define w1 where "w1 = (if \<not> os_path_isdir (disk w) (r @ [''queue''])
                        then logmsg WARNING
                          ''No queue/ found in real_corpus_root=%s (cycle=%d). Archiving may be seed-only.''
                          [ArgPath r, ArgInt (int (cycle t))] w
                        else w)"
  have w1: "fault_src w1 = fault_src w" "fault_calls w1 = fault_calls w"
    by (simp_all add: w1_def logmsg_def)
  have e1: "external_call w1 = (None, w2)"
    using f1 w1 by (simp add: external_call_def w2_def w1_def)
  have e2: "external_call w3 =
      (fault_src w (Suc (fault_calls w)), w3\<lparr>fault_calls := Suc (Suc (fault_calls w))\<rparr>)"
    using w3 by (simp add: external_call_def)
  show ?thesis
    using r e1 e2 fold w3
    by (auto simp: archive_corpus_def Let_def w1_def[symmetric] split: option.splits)
qed

lemma archive_corpus_world1:
  "archive_corpus (trial1, world1) =
     (Inr 1, trial1\<lparr>last_archive_time := Fin 40\<rparr>,
      world1\<lparr>fault_calls := 2,
             archives := [1 \<mapsto> [([''queue'', ''id_2''], ''c''), ([''queue'', ''sub'', ''id_3''], ''d''),
                                ([''crashes'', ''crash_0''], ''e'')]]\<rparr>)"
  by (simp add: archive_corpus_def trial1_def trial0_def world1_def world0_def fs_corpus_def
      find_real_output_corpus_dir_def looks_like_afl_dir_def os_path_isdir_def
      os_path_exists_def markers_def external_call_def iter_targeted_corpus_elements_def
      os_walk_files_def archive_step_def os_stat_mtime_def tar_add_def os_path_relpath_def
      less_pyfloat_def)

text \<open>
  C1. On a tree with distinct names in every directory, with an output corpus configured
  and the archive file opened and finalised without error, \<open>archive_corpus\<close> returns
  the archive of the cycle, leaves the tree as it is, and the members of the archive are
  exactly the regular files that lie, at any depth, under the subdirectories \<open>queue\<close>,
  \<open>crashes\<close> or \<open>hangs\<close> of the resolved root and whose modification time is strictly
  greater than the watermark at the start of the call. Each member is stored under its
  path relative to the resolved root, with its content; nothing outside the three
  subdirectories is a member.
\<close>

theorem archive_corpus_contents:
  assumes wf: "wf_node (disk w)" and oc: "output_corpus t = Some d"
    and f1: "fault_src w (fault_calls w) = None"
    and f2: "fault_src w (Suc (fault_calls w)) = None"
  shows "\<exists>r t' w' tar. find_real_output_corpus_dir (disk w) (Some d) = Some r
      \<and> archive_corpus (t, w) = (Inr (cycle t), t', w')
      \<and> disk w' = disk w
      \<and> archives w' (cycle t) = Some tar
      \<and> set tar = {(s # q, c) | s q c m. s \<in> targeted \<and> q \<noteq> []
                     \<and> lookup (disk w) (r @ s # q) = Some (File c m)
                     \<and> last_archive_time t < Fin m}"
proof -
  from find_real_total obtain r where r: "find_real_output_corpus_dir (disk w) (Some d) = Some r"
    by blast
  let ?xs = "iter_targeted_corpus_elements (disk w) r"
  let ?wm = "last_archive_time t"
  have files: "\<forall>p \<in> set ?xs. \<exists>c m. lookup (disk w) p = Some (File c m)"
    unfolding set_iter_targeted[OF wf] by blast
  let ?sel = "\<lambda>p. \<not> Fin (mtime (the (lookup (disk w) p))) \<le> ?wm"
  let ?tar = "map (\<lambda>p. (os_path_relpath p r, content (the (lookup (disk w) p)))) (filter ?sel ?xs)"
  have tar: "set ?tar = {(s # q, c) | s q c m. s \<in> targeted \<and> q \<noteq> []
                     \<and> lookup (disk w) (r @ s # q) = Some (File c m) \<and> ?wm < Fin m}"
    (is "?L = ?R")
  proof (rule set_eqI, rule iffI)
    fix x assume "x \<in> ?L"
    then obtain p where p: "p \<in> set ?xs" "?sel p"
      "x = (os_path_relpath p r, content (the (lookup (disk w) p)))" by auto
    from p(1) obtain s q c m where sq: "p = r @ s # q" "s \<in> targeted" "q \<noteq> []"
      "lookup (disk w) (r @ s # q) = Some (File c m)"
      unfolding set_iter_targeted[OF wf] by blast
    from sq p(2) have "?wm < Fin m" by simp
    moreover from sq p(3) have "x = (s # q, c)" by (simp add: relpath_below)
    ultimately show "x \<in> ?R" using sq by blast
  next
    fix x assume "x \<in> ?R"
    then obtain s q c m where sq: "x = (s # q, c)" "s \<in> targeted" "q \<noteq> []"
      "lookup (disk w) (r @ s # q) = Some (File c m)" "?wm < Fin m" by blast
    from sq(2,3,4) have "r @ s # q \<in> set ?xs"
      unfolding set_iter_targeted[OF wf] by blast
    moreover from sq(4,5) have "?sel (r @ s # q)" by simp
    moreover from sq(1,4) have
      "x = (os_path_relpath (r @ s # q) r, content (the (lookup (disk w) (r @ s # q))))"
      by (simp add: relpath_below)
    ultimately show "x \<in> ?L" by (simp only: set_map set_filter) blast
  qed
  from foldl_archive_files[OF files, of r ?wm ?wm "[]"]
  have "\<exists>acc. \<forall>w2. foldl (archive_step (disk w) r ?wm) (?wm, [], w2) ?xs = (acc, ?tar, w2)"
    by simp
  then obtain acc where
    fold: "\<And>w2. foldl (archive_step (disk w) r ?wm) (?wm, [], w2) ?xs = (acc, ?tar, w2)"
    by blast
  have "archive_corpus (t, w) =
      (case fault_src w (Suc (fault_calls w)) of
         None \<Rightarrow> (Inr (cycle t), t\<lparr>last_archive_time := acc\<rparr>,
                   (if \<not> os_path_isdir (disk w) (r @ [''queue''])
                    then logmsg WARNING
                     ''No queue/ found in real_corpus_root=%s (cycle=%d). Archiving may be seed-only.''
                     [ArgPath r, ArgInt (int (cycle t))] w
                    else w)\<lparr>fault_calls := Suc (fault_calls w)\<rparr>
                    \<lparr>fault_calls := Suc (Suc (fault_calls w)),
                      archives := (archives w)(cycle t \<mapsto> ?tar)\<rparr>)
       | Some e \<Rightarrow> (Inl e, t, (if \<not> os_path_isdir (disk w) (r @ [''queue''])
                    then logmsg WARNING
                     ''No queue/ found in real_corpus_root=%s (cycle=%d). Archiving may be seed-only.''
                     [ArgPath r, ArgInt (int (cycle t))] w
                    else w)\<lparr>fault_calls := Suc (fault_calls w)\<rparr>
                    \<lparr>fault_calls := Suc (Suc (fault_calls w))\<rparr>))"
    by (rule archive_corpus_run[OF _ f1 fold]) (use r oc in \<open>simp_all add: logmsg_def\<close>)
  with f2 r tar show ?thesis by (simp add: logmsg_def)
qed

theorem archive_corpus_contents_witness:
  "wf_node (disk world1) \<and> output_corpus trial1 = Some [''out'']
   \<and> fault_src world1 (fault_calls world1) = None
   \<and> fault_src world1 (Suc (fault_calls world1)) = None
   \<and> find_real_output_corpus_dir (disk world1) (Some [''out'']) = Some [''out'', ''default'']
   \<and> fst (archive_corpus (trial1, world1)) = Inr 1
   \<and> archives (snd (snd (archive_corpus (trial1, world1)))) 1 =
       Some [([''queue'', ''id_2''], ''c''), ([''queue'', ''sub'', ''id_3''], ''d''),
             ([''crashes'', ''crash_0''], ''e'')]"
proof -
  have a: "wf_node (disk world1)" "output_corpus trial1 = Some [''out'']"
    "fault_src world1 (fault_calls world1) = None"
    "fault_src world1 (Suc (fault_calls world1)) = None"
    by (simp_all add: world1_def world0_def trial1_def trial0_def fs_corpus_def)
  have r: "find_real_output_corpus_dir (disk world1) (Some [''out'']) = Some [''out'', ''default'']"
    by (simp add: world1_def world0_def fs_corpus_def find_real_output_corpus_dir_def
        looks_like_afl_dir_def os_path_isdir_def os_path_exists_def markers_def)
  from archive_corpus_contents[OF a] a r show ?thesis
    by (simp add: archive_corpus_world1)
qed

text \<open>
  C2. A new \<open>TrialRunner\<close> has the watermark \<open>-inf\<close>. A call of \<open>archive_corpus\<close> never
  lowers the watermark, whatever its outcome, and when it returns the new watermark is
  the maximum of the old one and the modification times observed in that cycle (the old
  watermark when none was observed).
\<close>

theorem watermark_never_regresses:
  "(\<forall>t0 w0. TrialRunner_init cfg w = (Inr t0, w0) \<longrightarrow> last_archive_time t0 = NegInf)
   \<and> last_archive_time t \<le> last_archive_time (fst (snd (archive_corpus (t, w))))
   \<and> (\<forall>a t' w'. archive_corpus (t, w) = (Inr a, t', w') \<longrightarrow>
         (\<exists>r. find_real_output_corpus_dir (disk w) (output_corpus t) = Some r
            \<and> last_archive_time t' =
                Max (set (last_archive_time t
                          # considered_mtimes (disk w) (iter_targeted_corpus_elements (disk w) r)))))"
proof -
  have init: "\<forall>t0 w0. TrialRunner_init cfg w = (Inr t0, w0) \<longrightarrow> last_archive_time t0 = NegInf"
    by (auto simp: TrialRunner_init_def Let_def split: if_splits prod.splits option.splits)
  have foldmax: "last_archive_time t \<le> fold max xs (last_archive_time t)" for xs
    by (metis Max.set_eq_fold Max_ge List.finite_set list.set_intros(1))
  show ?thesis
  proof (cases "find_real_output_corpus_dir (disk w) (output_corpus t)")
    case None
    then have "archive_corpus (t, w) = (Inl TypeError, t, w)"
      by (simp add: archive_corpus_def)
    with init show ?thesis by simp
  next
    case (Some r)
    let ?xs = "iter_targeted_corpus_elements (disk w) r"
    let ?acc = "fold max (considered_mtimes (disk w) ?xs) (last_archive_time t)"
    show ?thesis
    proof (cases "fault_src w (fault_calls w)")
      case f: (Some e)
      with Some have "\<exists>w'. archive_corpus (t, w) = (Inl e, t, w')"
        by (simp add: archive_corpus_def external_call_def logmsg_def Let_def)
      with init show ?thesis by auto
    next
      case f: None
      let ?w2 = "(if \<not> os_path_isdir (disk w) (r @ [''queue''])
                   then logmsg WARNING
                     ''No queue/ found in real_corpus_root=%s (cycle=%d). Archiving may be seed-only.''
                     [ArgPath r, ArgInt (int (cycle t))] w
                   else w)\<lparr>fault_calls := Suc (fault_calls w)\<rparr>"
      from foldl_archive_time[OF order_refl, of "disk w" r "last_archive_time t" "[]" ?w2 ?xs]
      obtain tar w3 where
        fold: "foldl (archive_step (disk w) r (last_archive_time t)) (last_archive_time t, [], ?w2) ?xs
                = (?acc, tar, w3)"
        and w3: "disk w3 = disk w" "fault_src w3 = fault_src w"
          "fault_calls w3 = Suc (fault_calls w)" "archives w3 = archives w"
        by (auto simp: logmsg_def)
      have mx: "?acc = Max (set (last_archive_time t # considered_mtimes (disk w) ?xs))"
        by (simp only: Max.set_eq_fold)
      from archive_corpus_run[OF Some f fold w3] init foldmax[of "considered_mtimes (disk w) ?xs"]
        Some mx
      show ?thesis by (auto split: option.splits)
    qed
  qed
qed

theorem watermark_never_regresses_witness:
  "fst (TrialRunner_init cfg0 world1) =
     Inr \<lparr>cycle = 0, output_corpus = Some [''out''], results_dir = [''work'', ''results''],
          gcs_sync_dir = Some ''bucket/trial-1'', last_sync_time = None,
          last_archive_time = NegInf\<rparr>
   \<and> last_archive_time trial1 = Fin 30
   \<and> last_archive_time (fst (snd (archive_corpus (trial1, world1)))) = Fin 40
   \<and> considered_mtimes (disk world1)
        (iter_targeted_corpus_elements (disk world1) [''out'', ''default''])
      = [Fin 10, Fin 20, Fin 31, Fin 32, Fin 40]
   \<and> (\<exists>r. find_real_output_corpus_dir (disk world1) (output_corpus trial1) = Some r
         \<and> Fin 40 = Max (set (last_archive_time trial1
               # considered_mtimes (disk world1) (iter_targeted_corpus_elements (disk world1) r))))"
proof -
  have a: "fst (TrialRunner_init cfg0 world1) =
     Inr \<lparr>cycle = 0, output_corpus = Some [''out''], results_dir = [''work'', ''results''],
          gcs_sync_dir = Some ''bucket/trial-1'', last_sync_time = None,
          last_archive_time = NegInf\<rparr>"
    by (simp add: TrialRunner_init_def cfg0_def external_call_def world1_def world0_def)
  have b: "last_archive_time trial1 = Fin 30"
    by (simp add: trial1_def)
  have c: "last_archive_time (fst (snd (archive_corpus (trial1, world1)))) = Fin 40"
    by (simp add: archive_corpus_world1)
  have d: "considered_mtimes (disk world1)
        (iter_targeted_corpus_elements (disk world1) [''out'', ''default''])
      = [Fin 10, Fin 20, Fin 31, Fin 32, Fin 40]"
    by (simp add: world1_def world0_def considered_mtimes_def
      iter_targeted_corpus_elements_def os_path_isdir_def os_walk_files_def
      os_stat_mtime_def fs_corpus_def)
  from watermark_never_regresses [of cfg0 world1 trial1]
  have "\<forall>a t' w'. archive_corpus (trial1, world1) = (Inr a, t', w') \<longrightarrow>
         (\<exists>r. find_real_output_corpus_dir (disk world1) (output_corpus trial1) = Some r
            \<and> last_archive_time t' =
                Max (set (last_archive_time trial1
                  # considered_mtimes (disk world1) (iter_targeted_corpus_elements (disk world1) r))))"
    by blast
  from this[rule_format, OF archive_corpus_world1]
  have e: "\<exists>r. find_real_output_corpus_dir (disk world1) (output_corpus trial1) = Some r
         \<and> Fin 40 = Max (set (last_archive_time trial1
               # considered_mtimes (disk world1) (iter_targeted_corpus_elements (disk world1) r)))"
    by simp
  from a b c d e show ?thesis by blast
qed

section \<open>Synchronisation never raises\<close>

text \<open>
  Proof devices: \<open>quiet w w'\<close> says that a step left the error flag, the started
  commands and the sleeps alone and only appended to the log; \<open>quiet_op\<close> says so of an
  operation on the runner, which also keeps the cycle number and the sync directory.
\<close>

definition quiet :: "world \<Rightarrow> world \<Rightarrow> bool" where
  "quiet w w' = (fuzzer_errored_out w' = fuzzer_errored_out w \<and> launched w' = launched w
     \<and> slept w' = slept w \<and> (\<exists>post. logs w' = logs w @ post))"

lemma quiet_refl: "quiet w w"
  by (simp add: quiet_def)

lemma quiet_trans: "quiet w w1 \<Longrightarrow> quiet w1 w2 \<Longrightarrow> quiet w w2"
  by (auto simp: quiet_def)

lemma quiet_logmsg: "quiet w (logmsg lv fmt args w)"
  by (simp add: quiet_def logmsg_def)

lemma quiet_external_call: "quiet w (snd (external_call w))"
  by (simp add: quiet_def external_call_def)

lemma quiet_archive_step:
  "quiet w (snd (snd (archive_step fs r wm (acc, tar, w) p)))"
  by (auto simp: archive_step_def archive_handler_def Let_def quiet_logmsg quiet_refl
      split: sum.splits)

lemma quiet_foldl_archive_step:
  "quiet w (snd (snd (foldl (archive_step fs r wm) (acc, tar, w) xs)))"
proof (induction xs arbitrary: acc tar w)
  case Nil
  show ?case by (simp add: quiet_refl)
next
  case (Cons p xs)
  obtain acc1 tar1 w1 where s: "archive_step fs r wm (acc, tar, w) p = (acc1, tar1, w1)"
    by (cases "archive_step fs r wm (acc, tar, w) p") auto
  with quiet_archive_step[of w fs r wm acc tar p] have "quiet w w1" by simp
  with Cons.IH[where acc=acc1 and tar=tar1 and w=w1] s show ?case by (auto intro: quiet_trans)
qed

lemma archive_corpus_quiet:
  assumes "archive_corpus (t, w) = (res, t', w')"
  shows "quiet w w' \<and> cycle t' = cycle t \<and> gcs_sync_dir t' = gcs_sync_dir t"
proof (cases "find_real_output_corpus_dir (disk w) (output_corpus t)")
  case None
  with assms show ?thesis by (auto simp: archive_corpus_def quiet_refl)
next
  case (Some r)
  define w1 where "w1 = (if \<not> os_path_isdir (disk w) (r @ [''queue''])
                        then logmsg WARNING
                          ''No queue/ found in real_corpus_root=%s (cycle=%d). Archiving may be seed-only.''
                          [ArgPath r, ArgInt (int (cycle t))] w
                        else w)"
  have q1: "quiet w w1" by (simp add: w1_def quiet_logmsg quiet_refl)
  obtain f1 w2 where e1: "external_call w1 = (f1, w2)" by (cases "external_call w1") auto
  with quiet_external_call[of w1] have q2: "quiet w1 w2" by simp
  obtain acc tar w3 where fo: "foldl (archive_step (disk w) r (last_archive_time t))
        (last_archive_time t, [], w2) (iter_targeted_corpus_elements (disk w) r) = (acc, tar, w3)"
    by (metis prod_cases3)
  with quiet_foldl_archive_step[where w=w2 and fs="disk w" and r=r and wm="last_archive_time t"
      and acc="last_archive_time t" and tar="[]"
      and xs="iter_targeted_corpus_elements (disk w) r"]
  have q3: "quiet w2 w3" by simp
  obtain f2 w4 where e2: "external_call w3 = (f2, w4)" by (cases "external_call w3") auto
  with quiet_external_call[of w3] have q4: "quiet w3 w4" by simp
  have q5: "quiet w4 (w4\<lparr>archives := a\<rparr>)" for a by (simp add: quiet_def)
  from q1 q2 q3 q4 have q14: "quiet w w2" "quiet w w4" by (blast intro: quiet_trans)+
  with q5 have q6: "quiet w (w4\<lparr>archives := a\<rparr>)" for a by (blast intro: quiet_trans)
  from assms Some e1 fo e2 q14 q6 show ?thesis
    by (auto simp: archive_corpus_def Let_def w1_def[symmetric] split: option.splits)
qed


definition quiet_op :: "(trial \<times> world \<Rightarrow> (exn + 'a) \<times> trial \<times> world) \<Rightarrow> bool" where
  "quiet_op f = (\<forall>t w res t' w'. f (t, w) = (res, t', w') \<longrightarrow>
      quiet w w' \<and> cycle t' = cycle t \<and> gcs_sync_dir t' = gcs_sync_dir t)"

lemma save_corpus_archive_quiet:
  assumes "save_corpus_archive a (t, w) = (res, t', w')"
  shows "quiet w w' \<and> t' = t"
proof -
  have q: "quiet w (snd (external_call w)\<lparr>gcs_corpus := g, archives := x\<rparr>)" for g x
    by (simp add: quiet_def external_call_def)
  from assms quiet_external_call[of w] q show ?thesis
    by (auto simp: save_corpus_archive_def quiet_refl split: option.splits prod.splits)
qed

lemma archive_and_save_body_quiet:
  "quiet_op (\<lambda>s. case archive_corpus s of
               (Inl e, s') \<Rightarrow> (Inl e, s')
             | (Inr archive, s') \<Rightarrow> save_corpus_archive archive s')"
  unfolding quiet_op_def
proof (intro allI impI)
  fix t w res t' w'
  assume a: "(case archive_corpus (t, w) of
               (Inl e, s') \<Rightarrow> (Inl e, s')
             | (Inr archive, s') \<Rightarrow> save_corpus_archive archive s') = (res :: exn + unit, t', w')"
  obtain r1 t1 w1 where ac: "archive_corpus (t, w) = (r1, t1, w1)" by (metis prod_cases3)
  from archive_corpus_quiet[OF ac] have q1: "quiet w w1" "cycle t1 = cycle t"
    "gcs_sync_dir t1 = gcs_sync_dir t" by blast+
  show "quiet w w' \<and> cycle t' = cycle t \<and> gcs_sync_dir t' = gcs_sync_dir t"
  proof (cases r1)
    case (Inl e)
    with a ac q1 show ?thesis by simp
  next
    case (Inr archive)
    with a ac have "save_corpus_archive archive (t1, w1) = (res, t', w')" by simp
    from save_corpus_archive_quiet[OF this] q1 show ?thesis by (auto intro: quiet_trans)
  qed
qed

lemma save_results_body_quiet: "quiet_op save_results_body"
  unfolding quiet_op_def
  by (auto simp: save_results_body_def quiet_def external_call_def split: option.splits)

lemma retry_wrap_trace:
  assumes f: "quiet_op f" and d: "0 \<le> delay"
    and r: "retry_wrap n delay f (t, w) = (res, t', w')"
  shows "\<exists>j \<le> n. slept w' = slept w @ replicate j delay \<and> (isl res \<longrightarrow> j = n)
      \<and> fuzzer_errored_out w' = fuzzer_errored_out w \<and> launched w' = launched w
      \<and> (\<exists>post. logs w' = logs w @ post) \<and> cycle t' = cycle t
      \<and> gcs_sync_dir t' = gcs_sync_dir t"
  using r
proof (induction n arbitrary: t w)
  case 0
  with f have "quiet w w' \<and> cycle t' = cycle t \<and> gcs_sync_dir t' = gcs_sync_dir t"
    by (auto simp: quiet_op_def)
  then show ?case by (auto simp: quiet_def)
next
  case (Suc n)
  obtain r1 t1 w1 where f1: "f (t, w) = (r1, t1, w1)" by (metis prod_cases3)
  with f have q: "quiet w w1" "cycle t1 = cycle t" "gcs_sync_dir t1 = gcs_sync_dir t"
    by (auto simp: quiet_op_def)
  show ?case
  proof (cases r1)
    case (Inr v)
    with Suc.prems f1 q show ?thesis by (auto simp: quiet_def)
  next
    case (Inl e)
    let ?w2 = "w1\<lparr>slept := slept w1 @ [delay]\<rparr>"
    from Suc.prems f1 Inl d have "retry_wrap n delay f (t1, ?w2) = (res, t', w')"
      by (simp add: time_sleep_def)
    from Suc.IH[OF this] obtain j where j: "j \<le> n" "slept w' = slept ?w2 @ replicate j delay"
      "isl res \<longrightarrow> j = n" "fuzzer_errored_out w' = fuzzer_errored_out ?w2"
      "launched w' = launched ?w2" "\<exists>post. logs w' = logs ?w2 @ post"
      "cycle t' = cycle t1" "gcs_sync_dir t' = gcs_sync_dir t1"
      by blast
    from j q have "Suc j \<le> Suc n \<and> slept w' = slept w @ replicate (Suc j) delay
      \<and> (isl res \<longrightarrow> Suc j = Suc n)
      \<and> fuzzer_errored_out w' = fuzzer_errored_out w \<and> launched w' = launched w
      \<and> (\<exists>post. logs w' = logs w @ post) \<and> cycle t' = cycle t
      \<and> gcs_sync_dir t' = gcs_sync_dir t"
      by (auto simp: quiet_def replicate_app_Cons_same)
    then show ?thesis by blast
  qed
qed


lemma retry_three_trace:
  assumes f: "quiet_op f"
    and r: "retry_wrap NUM_RETRIES RETRY_DELAY f (t, w) = (res, t', w')"
  shows "cycle t' = cycle t \<and> fuzzer_errored_out w' = fuzzer_errored_out w
     \<and> launched w' = launched w \<and> (\<exists>post. logs w' = logs w @ post)
     \<and> (\<exists>j \<le> 3. slept w' = slept w @ replicate j 3)
     \<and> (isl res \<longrightarrow> slept w' = slept w @ [3, 3, 3])"
proof -
  have d: "0 \<le> RETRY_DELAY" by (simp add: RETRY_DELAY_def)
  from retry_wrap_trace[OF f d r] obtain j where
    j: "j \<le> NUM_RETRIES" "slept w' = slept w @ replicate j RETRY_DELAY"
    "isl res \<longrightarrow> j = NUM_RETRIES" "fuzzer_errored_out w' = fuzzer_errored_out w"
    "launched w' = launched w" "\<exists>post. logs w' = logs w @ post" "cycle t' = cycle t"
    by blast
  have three: "replicate NUM_RETRIES RETRY_DELAY = [3, 3, 3]"
    by (simp add: NUM_RETRIES_def RETRY_DELAY_def numeral_3_eq_3)
  from j three show ?thesis
    by (auto simp: NUM_RETRIES_def RETRY_DELAY_def)
qed

text \<open>
  C4. \<open>do_sync\<close> returns normally in every state, whatever the external operations do.
  When archiving and uploading fails, it has been called once and retried three times
  with a sleep of 3 seconds before each retry, the results are not copied, and the
  error is logged with the current cycle number; the same holds when copying the results
  fails. Otherwise the completion of the sync is logged. The cycle number is unchanged.
\<close>

theorem do_sync_never_raises:
  "\<exists>t' w'. do_sync (t, w) = (Inr (), t', w')
     \<and> cycle t' = cycle t
     \<and> ((\<exists>e t1 w1. archive_and_save_corpus (t, w) = (Inl e, t1, w1)
            \<and> slept w1 = slept w @ [3, 3, 3]
            \<and> t' = t1
            \<and> w' = logmsg ERROR ''Failed to sync cycle: %d.'' [ArgInt (int (cycle t))] w1)
        \<or> (\<exists>t1 w1. archive_and_save_corpus (t, w) = (Inr (), t1, w1)
            \<and> ((\<exists>e t2 w2. save_results (t1, w1) = (Inl e, t2, w2)
                  \<and> slept w2 = slept w1 @ [3, 3, 3]
                  \<and> t' = t2
                  \<and> w' = logmsg ERROR ''Failed to sync cycle: %d.'' [ArgInt (int (cycle t))] w2)
               \<or> (\<exists>t2 w2. save_results (t1, w1) = (Inr (), t2, w2)
                  \<and> t' = t2 \<and> w' = logmsg DEBUG ''Finished sync.'' [] w2))))"
proof -
  obtain r1 t1 w1 where a: "archive_and_save_corpus (t, w) = (r1, t1, w1)" by (metis prod_cases3)
  from retry_three_trace[OF archive_and_save_body_quiet a[unfolded archive_and_save_corpus_def]]
  have a1: "cycle t1 = cycle t" "isl r1 \<longrightarrow> slept w1 = slept w @ [3, 3, 3]" by blast+
  show ?thesis
  proof (cases r1)
    case (Inl e)
    with a a1 show ?thesis by (simp add: do_sync_def)
  next
    case (Inr u)
    obtain r2 t2 w2 where b: "save_results (t1, w1) = (r2, t2, w2)" by (metis prod_cases3)
    from retry_three_trace[OF save_results_body_quiet b[unfolded save_results_def]]
    have b1: "cycle t2 = cycle t1" "isl r2 \<longrightarrow> slept w2 = slept w1 @ [3, 3, 3]" by blast+
    from Inr a a1 b b1 show ?thesis by (cases r2) (simp_all add: do_sync_def)
  qed
qed

text \<open>
  The scenario of a remote upload that raises on every attempt: the archive is written
  four times (external operations 0-1, 3-4, 6-7, 9-10 succeed) and every copy to remote
  storage (operations 2, 5, 8, 11) raises.
\<close>

theorem do_sync_never_raises_witness:
  "fst (do_sync (trial1, world_upload_fails)) = Inr ()
   \<and> fst (archive_and_save_corpus (trial1, world_upload_fails))
       = Inl (OtherException ''upload failed'')
   \<and> slept (snd (snd (do_sync (trial1, world_upload_fails)))) = [3, 3, 3]
   \<and> logs (snd (snd (do_sync (trial1, world_upload_fails))))
       = [(ERROR, ''Failed to sync cycle: %d.'', [ArgInt 1])]"
proof -
  have a: "fst (do_sync (trial1, world_upload_fails)) = Inr ()"
    by code_simp
  have b: "fst (archive_and_save_corpus (trial1, world_upload_fails))
       = Inl (OtherException ''upload failed'')"
    by code_simp
  have c: "slept (snd (snd (do_sync (trial1, world_upload_fails)))) = [3, 3, 3]"
    by code_simp
  have d: "logs (snd (snd (do_sync (trial1, world_upload_fails))))
       = [(ERROR, ''Failed to sync cycle: %d.'', [ArgInt 1])]"
    by code_simp
  from do_sync_never_raises [of trial1 world_upload_fails] a b c d show ?thesis
    by blast
qed

section \<open>The outcome of the trial\<close>

lemma do_sync_frame:
  assumes "do_sync (t, w) = (res, t', w')"
  shows "res = Inr () \<and> fuzzer_errored_out w' = fuzzer_errored_out w
     \<and> launched w' = launched w \<and> cycle t' = cycle t
     \<and> (\<exists>post. logs w' = logs w @ post \<and> post \<noteq> []
          \<and> last post \<in> {(DEBUG, ''Finished sync.'', []),
                           (ERROR, ''Failed to sync cycle: %d.'', [ArgInt (int (cycle t))])})"
proof -
  obtain r1 t1 w1 where a: "archive_and_save_corpus (t, w) = (r1, t1, w1)" by (metis prod_cases3)
  from retry_three_trace[OF archive_and_save_body_quiet a[unfolded archive_and_save_corpus_def]]
  obtain p1 where a1: "cycle t1 = cycle t" "fuzzer_errored_out w1 = fuzzer_errored_out w"
    "launched w1 = launched w" "logs w1 = logs w @ p1" by blast
  show ?thesis
  proof (cases r1)
    case (Inl e)
    with a a1 assms show ?thesis by (auto simp: do_sync_def logmsg_def)
  next
    case (Inr u)
    obtain r2 t2 w2 where b: "save_results (t1, w1) = (r2, t2, w2)" by (metis prod_cases3)
    from retry_three_trace[OF save_results_body_quiet b[unfolded save_results_def]]
    obtain p2 where b1: "cycle t2 = cycle t1" "fuzzer_errored_out w2 = fuzzer_errored_out w1"
      "launched w2 = launched w1" "logs w2 = logs w1 @ p2" by blast
    from Inr a a1 b b1 assms show ?thesis
      by (cases r2) (auto simp: do_sync_def logmsg_def)
  qed
qed

lemma sleep_frame:
  assumes "sleep_until_next_sync cfg (t, w) = (res, t', w')"
  shows "fuzzer_errored_out w' = fuzzer_errored_out w \<and> launched w' = launched w
     \<and> cycle t' = cycle t"
  using assms
  by (auto simp: sleep_until_next_sync_def time_sleep_def time_time_def logmsg_def Let_def
      split: option.splits if_splits prod.splits)

lemma sync_loop_frame:
  assumes "sync_loop cfg k (t, w) = (res, t', w')"
  shows "fuzzer_errored_out w' = fuzzer_errored_out w \<and> launched w' = launched w"
  using assms
proof (induction k arbitrary: t w)
  case 0
  then show ?case by simp
next
  case (Suc k)
  obtain r1 t1 w1 where s: "sleep_until_next_sync cfg (t\<lparr>cycle := cycle t + 1\<rparr>, w) = (r1, t1, w1)"
    by (metis prod_cases3)
  from sleep_frame[OF s] have f1: "fuzzer_errored_out w1 = fuzzer_errored_out w"
    "launched w1 = launched w" by blast+
  show ?case
  proof (cases r1)
    case (Inl e)
    with Suc.prems s f1 show ?thesis by simp
  next
    case (Inr u)
    obtain r2 t2 w2 where d: "do_sync (t1, w1) = (r2, t2, w2)" by (metis prod_cases3)
    from do_sync_frame[OF d] have f2: "r2 = Inr ()" "fuzzer_errored_out w2 = fuzzer_errored_out w1"
      "launched w2 = launched w1" by blast+
    from Suc.prems s Inr d f2 have "sync_loop cfg k (t2, w2) = (res, t', w')" by simp
    from Suc.IH[OF this] f1 f2 show ?thesis by simp
  qed
qed











lemma TrialRunner_init_flag:
  "fuzzer_errored_out (snd (TrialRunner_init cfg w)) = fuzzer_errored_out w"
  by (simp add: TrialRunner_init_def external_call_def Let_def split: option.splits)

lemma run_fuzzer_missing:
  assumes "target_binary cfg = None" "OUTPUT_CORPUS_DIR cfg = Some d"
  shows "run_fuzzer cfg mtt w = (Inr (), logmsg ERROR ''Fuzz target binary not found.'' [] w)"
  using assms by (simp add: run_fuzzer_def)

lemma conduct_trial_flag:
  assumes mb: "target_binary cfg = None" "OUTPUT_CORPUS_DIR cfg = Some d"
    and ini: "\<And>w. fuzzer_errored_out (snd (ini w)) = fuzzer_errored_out w"
    and su: "\<And>w. fuzzer_errored_out (snd (prep w)) = fuzzer_errored_out w"
    and c: "conduct_trial cfg ini prep mtt k (t, w) = (Inr (), t', w')"
  shows "fuzzer_errored_out w' = fuzzer_errored_out w"
proof -
  obtain r1 w1 where i: "ini w = (r1, w1)" by (cases "ini w") auto
  with ini[of w] have f1: "fuzzer_errored_out w1 = fuzzer_errored_out w" by simp
  obtain r2 w2 where s: "prep (logmsg INFO ''Starting trial.'' [] w1) = (r2, w2)"
    by (cases "prep (logmsg INFO ''Starting trial.'' [] w1)") auto
  with su[of "logmsg INFO ''Starting trial.'' [] w1"] f1
  have f2: "fuzzer_errored_out w2 = fuzzer_errored_out w" by (simp add: logmsg_def)
  obtain r3 t3 w3 where d: "do_sync (t, w2) = (r3, t3, w3)" by (metis prod_cases3)
  from do_sync_frame[OF d] f2 have f3: "fuzzer_errored_out w3 = fuzzer_errored_out w" by simp
  obtain r4 w4 where sl: "(if FUZZ_OUTSIDE_EXPERIMENT cfg then time_sleep 5 w3 else (Inr (), w3))
      = (r4, w4)" by (metis surj_pair)
  then have f4: "fuzzer_errored_out w4 = fuzzer_errored_out w"
    using f3 by (auto simp: time_sleep_def split: if_splits)
  obtain r5 t5 w5 where l: "sync_loop cfg k (t3, w4) = (r5, t5, w5)" by (metis prod_cases3)
  from sync_loop_frame[OF l] f4 have f5: "fuzzer_errored_out w5 = fuzzer_errored_out w" by simp
  let ?w6 = "logmsg INFO ''Doing final sync.'' [] (snd (run_fuzzer cfg mtt w5))"
  have f6: "fuzzer_errored_out ?w6 = fuzzer_errored_out w"
    using f5 by (simp add: run_fuzzer_missing[OF mb] logmsg_def)
  from c i s d sl l have "do_sync (t5, ?w6) = (Inr (), t', w')"
    by (auto simp: conduct_trial_def Let_def split: sum.splits)
  from do_sync_frame[OF this] f6 show ?thesis by simp
qed

text \<open>
  C9. With the output corpus configured and the target binary not found, \<open>run_fuzzer\<close>
  logs the failure and returns normally: it starts no command and leaves the error flag
  as it was. Hence, when the preparation steps do not touch the flag and the trial ends
  without an exception, the exit code is 0: the outcome is reported as success.
\<close>

theorem missing_binary_is_not_an_error:
  assumes mb: "target_binary cfg = None" "OUTPUT_CORPUS_DIR cfg = Some d"
  shows "run_fuzzer cfg mtt w = (Inr (), logmsg ERROR ''Fuzz target binary not found.'' [] w)
     \<and> launched (snd (run_fuzzer cfg mtt w)) = launched w
     \<and> fuzzer_errored_out (snd (run_fuzzer cfg mtt w)) = fuzzer_errored_out w
     \<and> ((\<forall>w0. fuzzer_errored_out (snd (ini w0)) = fuzzer_errored_out w0)
          \<and> (\<forall>w0. fuzzer_errored_out (snd (prep w0)) = fuzzer_errored_out w0)
          \<and> fst (experiment_main cfg ini prep mtt k (w\<lparr>fuzzer_errored_out := False\<rparr>)) = Inr ()
        \<longrightarrow> fst (main_exit_code cfg ini prep mtt k w) = 0)"
proof -
  let ?w0 = "w\<lparr>fuzzer_errored_out := False\<rparr>"
  have exit0: "fst (main_exit_code cfg ini prep mtt k w) = 0"
    if ini: "\<forall>w0. fuzzer_errored_out (snd (ini w0)) = fuzzer_errored_out w0"
      and su: "\<forall>w0. fuzzer_errored_out (snd (prep w0)) = fuzzer_errored_out w0"
      and ok: "fst (experiment_main cfg ini prep mtt k ?w0) = Inr ()"
  proof -
    obtain w' where em: "experiment_main cfg ini prep mtt k ?w0 = (Inr (), w')"
      using ok by (cases "experiment_main cfg ini prep mtt k ?w0") auto
    let ?wl = "logmsg INFO ''Doing trial as part of experiment.'' [] ?w0"
    obtain r1 w1 where tr: "TrialRunner_init cfg ?wl = (r1, w1)" by (metis surj_pair)
    with TrialRunner_init_flag[of cfg ?wl] have f1: "\<not> fuzzer_errored_out w1"
      by (simp add: logmsg_def)
    from em tr obtain runner t' where
      "conduct_trial cfg ini prep mtt k (runner, w1) = (Inr (), t', w')"
      by (auto simp: experiment_main_def Let_def split: sum.splits prod.splits)
    from conduct_trial_flag[OF mb _ _ this] ini su f1 have "\<not> fuzzer_errored_out w'"
      by simp
    with em show ?thesis by (simp add: main_exit_code_def)
  qed
  from run_fuzzer_missing[OF mb, of mtt w] exit0 show ?thesis
    by (simp add: logmsg_def)
qed

theorem missing_binary_is_not_an_error_witness:
  "target_binary cfg_nobin = None \<and> OUTPUT_CORPUS_DIR cfg_nobin = Some [''out'']
   \<and> run_fuzzer cfg_nobin (Some 10) world1
       = (Inr (), logmsg ERROR ''Fuzz target binary not found.'' [] world1)
   \<and> launched (snd (run_fuzzer cfg_nobin (Some 10) world1)) = []
   \<and> \<not> fuzzer_errored_out (snd (run_fuzzer cfg_nobin (Some 10) world1))
   \<and> fst (experiment_main cfg_nobin no_op_step no_op_step (Some 10) 2
             (world1\<lparr>fuzzer_errored_out := False\<rparr>)) = Inr ()
   \<and> fst (main_exit_code cfg_nobin no_op_step no_op_step (Some 10) 2 world1) = 0"
proof -
  have mb: "target_binary cfg_nobin = None" "OUTPUT_CORPUS_DIR cfg_nobin = Some [''out'']"
    by (simp_all add: cfg_nobin_def cfg0_def)
  have w: "launched world1 = []" "\<not> fuzzer_errored_out world1"
    by (simp_all add: world1_def world0_def)
  have ok: "fst (experiment_main cfg_nobin no_op_step no_op_step (Some 10) 2
             (world1\<lparr>fuzzer_errored_out := False\<rparr>)) = Inr ()"
    by code_simp
  have frame: "\<forall>w0. fuzzer_errored_out (snd (no_op_step w0)) = fuzzer_errored_out w0"
    by (simp add: no_op_step_def)
  from missing_binary_is_not_an_error [OF mb, of "Some 10" world1 no_op_step no_op_step 2]
    mb w ok frame
  show ?thesis by (simp add: logmsg_def)
qed

section \<open>Seed corpus preparation\<close>

text \<open>
  C10. When the seed directory path does not exist, \<open>_clean_seed_corpus\<close> returns at
  once and the world, the file tree included, is exactly as before, whether or not
  \<open>NO_SEEDS\<close> is set: in particular no empty seed directory is created.
\<close>

theorem clean_seed_corpus_missing_dir:
  assumes "\<not> os_path_exists (disk w) seed_corpus_dir"
  shows "clean_seed_corpus cfg file_hash seed_corpus_dir w = (Inr (), w)"
  using assms by (simp add: clean_seed_corpus_def)

theorem clean_seed_corpus_missing_dir_witness:
  "NO_SEEDS cfg_no_seeds
   \<and> \<not> os_path_exists (disk (world0\<lparr>disk := fs_seeds\<rparr>)) [''missing'']
   \<and> clean_seed_corpus cfg_no_seeds hash_ex [''missing''] (world0\<lparr>disk := fs_seeds\<rparr>)
       = (Inr (), world0\<lparr>disk := fs_seeds\<rparr>)
   \<and> disk (snd (clean_seed_corpus cfg_no_seeds hash_ex [''seeds''] (world0\<lparr>disk := fs_seeds\<rparr>)))
       = Dir [(''seeds'', Dir [])]"
proof -
  have a: "\<not> os_path_exists (disk (world0\<lparr>disk := fs_seeds\<rparr>)) [''missing'']"
    by (simp add: os_path_exists_def fs_seeds_def)
  have b: "NO_SEEDS cfg_no_seeds"
    by (simp add: cfg_no_seeds_def)
  have c: "disk (snd (clean_seed_corpus cfg_no_seeds hash_ex [''seeds''] (world0\<lparr>disk := fs_seeds\<rparr>)))
       = Dir [(''seeds'', Dir [])]"
    by code_simp
  from clean_seed_corpus_missing_dir [OF a, of cfg_no_seeds hash_ex] a b c show ?thesis
    by simp
qed

end
